theory Spec2Isabelle
  imports Complex_Main "HOL-Library.Multiset" "HOL-Library.Char_ord" "HOL-Library.List_Lexorder"
    "HOL-Library.AList"
begin

section \<open>JavaScript values\<close>

text \<open>
  A JavaScript number is a finite value, kept exactly as a rational, or one of the three
  special values. Rounding is not modelled.
\<close>

datatype jsnumber = Finite rat | NaN | PosInfinity | NegInfinity

text \<open>
  The values the modelled code handles: the primitives, arrays, and plain objects. An
  object is the list of its own properties in insertion order; a property that holds
  \<^verbatim>\<open>undefined\<close> is still a property of the object.
\<close>

datatype jsvalue =
    JUndefined
  | JNull
  | JBool bool
  | JNum jsnumber
  | JStr string
  | JArr "jsvalue list"
  | JObj "(string \<times> jsvalue) list"

datatype error =
    SyntaxError
  | TypeError
  | Error string "jsvalue list"

datatype log_entry = LogError string | LogInfo string | LogDebug string

text \<open>
  A statement that may throw evaluates to \<open>Inl\<close> of the error or \<open>Inr\<close> of its value;
  \<open>then_do\<close> runs the next statement only when the first did not throw.
\<close>

definition then_do :: "error + 'a \<Rightarrow> ('a \<Rightarrow> error + 'b) \<Rightarrow> error + 'b" where
  "then_do r f = (case r of Inl e \<Rightarrow> Inl e | Inr v \<Rightarrow> f v)"

definition of_int_number :: "int \<Rightarrow> jsvalue" where
  "of_int_number i = JNum (Finite (of_int i))"

text \<open>An optional string or boolean as a value: the missing one is \<^verbatim>\<open>undefined\<close>.\<close>

definition of_string_option :: "string option \<Rightarrow> jsvalue" where
  "of_string_option s = (case s of None \<Rightarrow> JUndefined | Some x \<Rightarrow> JStr x)"

definition of_bool_option :: "bool option \<Rightarrow> jsvalue" where
  "of_bool_option b = (case b of None \<Rightarrow> JUndefined | Some x \<Rightarrow> JBool x)"

text \<open>
  Reading the property \<open>key\<close> of a value, \<^verbatim>\<open>value.key\<close>. Reading from \<^verbatim>\<open>undefined\<close> or
  \<^verbatim>\<open>null\<close> throws a TypeError; an object gives the property, or \<^verbatim>\<open>undefined\<close> when it
  has none of that name; the other values give \<^verbatim>\<open>undefined\<close> for every name the
  modelled code reads (none of them is \<^verbatim>\<open>length\<close>, an index or a method).
\<close>

fun get_prop :: "jsvalue \<Rightarrow> string \<Rightarrow> error + jsvalue" where
  "get_prop JUndefined key = Inl TypeError"
| "get_prop JNull key = Inl TypeError"
| "get_prop (JObj props) key =
     Inr (case map_of props key of None \<Rightarrow> JUndefined | Some v \<Rightarrow> v)"
| "get_prop v key = Inr JUndefined"

text \<open>
  Assigning a property, \<^verbatim>\<open>value.key = x\<close>, in strict mode (the code of a class body):
  it throws a TypeError on \<^verbatim>\<open>undefined\<close>, \<^verbatim>\<open>null\<close> and the primitives. On an object
  it replaces the property where it stands or appends it. An array would take the named
  property too; arrays are modelled by their elements only, so the array is returned as
  it is.
\<close>

fun set_prop :: "jsvalue \<Rightarrow> string \<Rightarrow> jsvalue \<Rightarrow> error + jsvalue" where
  "set_prop (JObj props) key x = Inr (JObj (AList.update key x props))"
| "set_prop (JArr elems) key x = Inr (JArr elems)"
| "set_prop v key x = Inl TypeError"

subsection \<open>JSON\<close>

text \<open>
  \<^verbatim>\<open>JSON.stringify\<close> followed by \<^verbatim>\<open>JSON.parse\<close> gives back the value with every
  property that holds \<^verbatim>\<open>undefined\<close> dropped, and with \<^verbatim>\<open>null\<close> for an \<^verbatim>\<open>undefined\<close>
  array element and for a number that is not finite.
\<close>

definition undefined_to_null :: "jsvalue \<Rightarrow> jsvalue" where
  "undefined_to_null v = (if v = JUndefined then JNull else v)"

definition is_defined_prop :: "string \<times> jsvalue \<Rightarrow> bool" where
  "is_defined_prop p = (snd p \<noteq> JUndefined)"

primrec to_json :: "jsvalue \<Rightarrow> jsvalue" where
  "to_json JUndefined = JUndefined"
| "to_json JNull = JNull"
| "to_json (JBool b) = JBool b"
| "to_json (JNum n) = (case n of Finite q \<Rightarrow> JNum (Finite q) | _ \<Rightarrow> JNull)"
| "to_json (JStr s) = JStr s"
| "to_json (JArr elems) = JArr (map undefined_to_null (map to_json elems))"
| "to_json (JObj props) = JObj (filter is_defined_prop (map (map_prod id to_json) props))"

text \<open>
  A string kept in the browser's storage is read by \<^verbatim>\<open>JSON.parse\<close> only. It is modelled
  by what \<^verbatim>\<open>JSON.parse\<close> makes of it: a JSON text is the value it denotes, any other
  string (the empty string is one) is not JSON.
\<close>

datatype json_text = Json jsvalue | NotJson string

definition JSON_parse :: "json_text \<Rightarrow> error + jsvalue" where
  "JSON_parse t = (case t of Json v \<Rightarrow> Inr v | NotJson s \<Rightarrow> Inl SyntaxError)"

text \<open>
  \<^verbatim>\<open>JSON.stringify(undefined)\<close> is \<^verbatim>\<open>undefined\<close>, which the storage keeps as the string
  \<^verbatim>\<open>undefined\<close>.
\<close>

definition JSON_stringify :: "jsvalue \<Rightarrow> json_text" where
  "JSON_stringify v = (if v = JUndefined then NotJson ''undefined'' else Json (to_json v))"

section \<open>LocalWorkspaceStorage\<close>

text \<open>
  \<^verbatim>\<open>String.prototype.toLowerCase\<close> on the ASCII letters; every other character is
  left as it is.
\<close>

definition toLowerCase_char :: "char \<Rightarrow> char" where
  "toLowerCase_char c =
     (case map_of (zip ''ABCDEFGHIJKLMNOPQRSTUVWXYZ'' ''abcdefghijklmnopqrstuvwxyz'') c of
        None \<Rightarrow> c
      | Some l \<Rightarrow> l)"

definition toLowerCase :: "string \<Rightarrow> string" where
  "toLowerCase s = map toLowerCase_char s"

text \<open>
  \<^verbatim>\<open>serverConfigValues: Map<string, string> | undefined\<close>: \<open>None\<close> is the undefined
  map. \<^verbatim>\<open>serverConfigValues?.get(key)\<close> is undefined for an undefined map and for
  a missing key.
\<close>

type_synonym server_config = "(string \<rightharpoonup> string) option"

definition config_get :: "server_config \<Rightarrow> string \<Rightarrow> string option" where
  "config_get serverConfigValues key =
     (case serverConfigValues of None \<Rightarrow> None | Some m \<Rightarrow> m key)"

text \<open>The result \<open>None\<close> is \<^verbatim>\<open>undefined\<close>.\<close>

definition getBooleanServerConfig :: "server_config \<Rightarrow> string \<Rightarrow> bool option" where
  "getBooleanServerConfig serverConfigValues key =
     (if map_option toLowerCase (config_get serverConfigValues key) = Some ''true'' then Some True
      else if map_option toLowerCase (config_get serverConfigValues key) = Some ''false'' then Some False
      else None)"

definition STORAGE_KEY :: string where
  "STORAGE_KEY = ''deephaven.WorkspaceStorage''"

text \<open>The browser's \<^verbatim>\<open>localStorage\<close>: the string kept under each key.\<close>

type_synonym local_storage = "string \<rightharpoonup> json_text"

text \<open>
  \<^verbatim>\<open>UserLayoutUtils.getDefaultLayout\<close> is not part of the sources at hand. What it resolves
  to, or the error it rejects with, is the parameter \<open>getDefaultLayout\<close> of
  \<open>makeWorkspaceData\<close>, applied to the layout storage and to
  \<^verbatim>\<open>options?.isConsoleAvailable\<close>.
\<close>

record default_layout =
  filterSets :: jsvalue
  links :: jsvalue
  layoutConfig :: jsvalue

text \<open>\<^verbatim>\<open>options?: WorkspaceStorageLoadOptions\<close>, with its one field.\<close>

type_synonym load_options = "bool option option"

definition isConsoleAvailable :: "load_options \<Rightarrow> bool option" where
  "isConsoleAvailable options = (case options of None \<Rightarrow> None | Some b \<Rightarrow> b)"

definition makeWorkspaceData ::
  "('ls \<Rightarrow> bool option \<Rightarrow> error + default_layout) \<Rightarrow> 'ls \<Rightarrow> load_options \<Rightarrow> server_config
     \<Rightarrow> error + jsvalue" where
  "makeWorkspaceData getDefaultLayout layoutStorage options serverConfigValues =
     then_do (getDefaultLayout layoutStorage (isConsoleAvailable options)) (\<lambda>layout.
       Inr (JObj
         [(''settings'', JObj
            [(''defaultDateTimeFormat'',
                of_string_option (config_get serverConfigValues ''dateTimeFormat'')),
             (''formatter'', JArr []),
             (''timeZone'', of_string_option (config_get serverConfigValues ''timeZone'')),
             (''showTimeZone'',
                of_bool_option (getBooleanServerConfig serverConfigValues ''showTimeZone'')),
             (''showTSeparator'',
                of_bool_option (getBooleanServerConfig serverConfigValues ''showTSeparator'')),
             (''disableMoveConfirmation'',
                of_bool_option
                  (getBooleanServerConfig serverConfigValues ''disableMoveConfirmation'')),
             (''defaultDecimalFormatOptions'',
                (if config_get serverConfigValues ''decimalFormat'' \<noteq> None
                 then JObj [(''defaultFormatString'',
                        of_string_option (config_get serverConfigValues ''decimalFormat''))]
                 else JUndefined)),
             (''defaultIntegerFormatOptions'',
                (if config_get serverConfigValues ''integerFormat'' \<noteq> None
                 then JObj [(''defaultFormatString'',
                        of_string_option (config_get serverConfigValues ''integerFormat''))]
                 else JUndefined)),
             (''truncateNumbersWithPound'',
                of_bool_option
                  (getBooleanServerConfig serverConfigValues ''truncateNumbersWithPound'')),
             (''defaultNotebookSettings'',
                (if config_get serverConfigValues ''isMinimapEnabled'' \<noteq> None
                 then JObj [(''isMinimapEnabled'',
                        of_bool_option
                          (getBooleanServerConfig serverConfigValues ''isMinimapEnabled''))]
                 else JUndefined))]),
          (''layoutConfig'', layoutConfig layout),
          (''closed'', JArr [JObj []]),
          (''links'', links layout),
          (''filterSets'', filterSets layout)]))"

definition makeDefaultWorkspace ::
  "('ls \<Rightarrow> bool option \<Rightarrow> error + default_layout) \<Rightarrow> 'ls \<Rightarrow> load_options \<Rightarrow> server_config
     \<Rightarrow> error + jsvalue" where
  "makeDefaultWorkspace getDefaultLayout layoutStorage options serverConfigValues =
     then_do (makeWorkspaceData getDefaultLayout layoutStorage options serverConfigValues)
       (\<lambda>data. Inr (JObj [(''data'', data)]))"

text \<open>
  \<^verbatim>\<open>if (settings.key === undefined) { settings.key = x; }\<close>, on the settings object
  that the workspace holds.
\<close>

definition set_if_undefined :: "jsvalue \<Rightarrow> string \<Rightarrow> jsvalue \<Rightarrow> error + jsvalue" where
  "set_if_undefined settings key x =
     then_do (get_prop settings key) (\<lambda>current.
       if current = JUndefined then set_prop settings key x else Inr settings)"

text \<open>
  \<^verbatim>\<open>if (settings.key.inner === undefined && configured !== undefined)
    { settings.key = { inner: x }; }\<close>: the two property reads come first, so a
  \<^verbatim>\<open>settings.key\<close> that is \<^verbatim>\<open>undefined\<close> or \<^verbatim>\<open>null\<close> throws whatever is configured.
\<close>

definition set_options_if_undefined ::
  "jsvalue \<Rightarrow> string \<Rightarrow> string \<Rightarrow> bool \<Rightarrow> jsvalue \<Rightarrow> error + jsvalue" where
  "set_options_if_undefined settings key inner configured x =
     then_do (get_prop settings key) (\<lambda>opts.
     then_do (get_prop opts inner) (\<lambda>current.
       if current = JUndefined \<and> configured then set_prop settings key (JObj [(inner, x)])
       else Inr settings))"

text \<open>
  The six conditional assignments of \<open>load\<close> to the settings object, in their order.
\<close>

definition fill_settings :: "server_config \<Rightarrow> jsvalue \<Rightarrow> error + jsvalue" where
  "fill_settings serverConfigValues s0 =
     then_do (set_if_undefined s0 ''timeZone''
                (of_string_option (config_get serverConfigValues ''timeZone''))) (\<lambda>s1.
     then_do (set_if_undefined s1 ''defaultDateTimeFormat''
                (of_string_option (config_get serverConfigValues ''dateTimeFormat''))) (\<lambda>s2.
     then_do (set_options_if_undefined s2 ''defaultDecimalFormatOptions'' ''defaultFormatString''
                (config_get serverConfigValues ''decimalFormat'' \<noteq> None)
                (of_string_option (config_get serverConfigValues ''decimalFormat''))) (\<lambda>s3.
     then_do (set_options_if_undefined s3 ''defaultIntegerFormatOptions'' ''defaultFormatString''
                (config_get serverConfigValues ''integerFormat'' \<noteq> None)
                (of_string_option (config_get serverConfigValues ''integerFormat''))) (\<lambda>s4.
     then_do (set_if_undefined s4 ''truncateNumbersWithPound''
                (of_bool_option
                   (getBooleanServerConfig serverConfigValues ''truncateNumbersWithPound''))) (\<lambda>s5.
     set_options_if_undefined s5 ''defaultNotebookSettings'' ''isMinimapEnabled''
                (config_get serverConfigValues ''isMinimapEnabled'' \<noteq> None)
                (of_bool_option
                   (getBooleanServerConfig serverConfigValues ''isMinimapEnabled'')))))))"

text \<open>
  The body of the \<^verbatim>\<open>try\<close> block of \<open>load\<close>. The assignments change the settings object
  in place; the workspace that is returned holds that object under \<^verbatim>\<open>settings\<close>.
\<close>

definition load_try :: "local_storage \<Rightarrow> server_config \<Rightarrow> error + jsvalue" where
  "load_try localStorage serverConfigValues =
     then_do (JSON_parse (case localStorage STORAGE_KEY of None \<Rightarrow> NotJson '''' | Some t \<Rightarrow> t))
       (\<lambda>workspace.
     then_do (get_prop workspace ''settings'') (\<lambda>s0.
     then_do (fill_settings serverConfigValues s0) (\<lambda>s6.
       set_prop workspace ''settings'' s6)))"

text \<open>
  \<open>load\<close>: what the promise resolves to (\<open>Inr\<close>) or rejects with (\<open>Inl\<close>), and what was
  logged. Whatever the \<^verbatim>\<open>try\<close> block throws is caught.
\<close>

definition load ::
  "('ls \<Rightarrow> bool option \<Rightarrow> error + default_layout) \<Rightarrow> 'ls \<Rightarrow> local_storage \<Rightarrow> load_options
     \<Rightarrow> server_config \<Rightarrow> log_entry list \<times> (error + jsvalue)" where
  "load getDefaultLayout layoutStorage localStorage options serverConfigValues =
     (case load_try localStorage serverConfigValues of
        Inr workspace \<Rightarrow> ([], Inr workspace)
      | Inl e \<Rightarrow>
          ([LogInfo ''Unable to load workspace data, initializing to default data''],
           makeDefaultWorkspace getDefaultLayout layoutStorage options serverConfigValues))"

text \<open>\<open>save\<close>: the storage after the call, and the workspace it resolves to.\<close>

definition save :: "local_storage \<Rightarrow> jsvalue \<Rightarrow> local_storage \<times> jsvalue" where
  "save localStorage workspace =
     (localStorage(STORAGE_KEY \<mapsto> JSON_stringify workspace), workspace)"

text \<open>
  What \<open>load\<close> dereferences in a parsed workspace: \<^verbatim>\<open>workspace.settings\<close> is an object,
  and each of its three option properties can have a property read from it, which is to
  say that it is neither \<^verbatim>\<open>undefined\<close> nor \<^verbatim>\<open>null\<close>.
\<close>

definition dereferenceable :: "jsvalue \<Rightarrow> bool" where
  "dereferenceable v = (v \<noteq> JUndefined \<and> v \<noteq> JNull)"

definition holds_dereferenceable :: "(string \<times> jsvalue) list \<Rightarrow> string \<Rightarrow> bool" where
  "holds_dereferenceable props key =
     (case map_of props key of None \<Rightarrow> False | Some v \<Rightarrow> dereferenceable v)"

definition has_settings_structure :: "jsvalue \<Rightarrow> bool" where
  "has_settings_structure workspace =
     (case get_prop workspace ''settings'' of
        Inr (JObj props) \<Rightarrow>
          holds_dereferenceable props ''defaultDecimalFormatOptions''
          \<and> holds_dereferenceable props ''defaultIntegerFormatOptions''
          \<and> holds_dereferenceable props ''defaultNotebookSettings''
      | _ \<Rightarrow> False)"

text \<open>An object defines a property when it has it with a value other than \<^verbatim>\<open>undefined\<close>.\<close>

definition has_defined :: "jsvalue \<Rightarrow> string \<Rightarrow> bool" where
  "has_defined obj key =
     (case obj of
        JObj props \<Rightarrow> (case map_of props key of None \<Rightarrow> False | Some v \<Rightarrow> v \<noteq> JUndefined)
      | _ \<Rightarrow> False)"

section \<open>IrisGridUtils\<close>

text \<open>A column of the table, \<^verbatim>\<open>dh.Column\<close>: the two fields the modelled code reads.\<close>

record column =
  name :: string
  type :: string

subsection \<open>Helpers of the language\<close>

text \<open>\<^verbatim>\<open>Array.prototype.findIndex\<close>: the first index that satisfies the test, or -1.\<close>

primrec findIndex :: "('a \<Rightarrow> bool) \<Rightarrow> 'a list \<Rightarrow> int" where
  "findIndex P [] = - 1"
| "findIndex P (x # xs) =
     (if P x then 0 else (let i = findIndex P xs in if i < 0 then - 1 else i + 1))"

text \<open>
  \<^verbatim>\<open>Array.prototype.map\<close> with a callback that may throw: the first error ends the
  loop.
\<close>

primrec map_throwing :: "('a \<Rightarrow> error + 'b) \<Rightarrow> 'a list \<Rightarrow> error + 'b list" where
  "map_throwing f [] = Inr []"
| "map_throwing f (x # xs) =
     then_do (f x) (\<lambda>y. then_do (map_throwing f xs) (\<lambda>ys. Inr (y # ys)))"

text \<open>
  \<^verbatim>\<open>new Map(entries)\<close>: the entries are set one after the other, so the last entry of a
  key gives its value, at the place where the key was first set.
\<close>

definition Map_of_entries :: "('k \<times> 'v) list \<Rightarrow> ('k \<times> 'v) list" where
  "Map_of_entries entries = fold (\<lambda>e m. AList.update (fst e) (snd e) m) entries []"

subsection \<open>The state of the grid\<close>

text \<open>
  A move operation, \<^verbatim>\<open>{ from, to }\<close>, with the two indices. In the dehydrated state a moved
  column names its two columns; \<open>hydrateGridState\<close> takes a name or an index for each of the
  two (\<^verbatim>\<open>string | number\<close>).
\<close>

record move_operation =
  move_from :: int
  move_to :: int

datatype name_or_index = ByName string | ByIndex int

record saved_move_operation =
  saved_from :: name_or_index
  saved_to :: name_or_index

text \<open>
  The four properties of the grid's state; \<open>'m\<close> is the type of a moved column, a
  \<open>move_operation\<close> in the grid and a \<open>saved_move_operation\<close> in the dehydrated state.
\<close>

record 'm grid_state =
  isStuckToBottom :: bool
  isStuckToRight :: bool
  movedColumns :: "'m list"
  movedRows :: "move_operation list"

text \<open>The first argument is \<^verbatim>\<open>model.columns\<close>.\<close>

definition dehydrateGridState ::
  "column list \<Rightarrow> move_operation grid_state \<Rightarrow> saved_move_operation grid_state" where
  "dehydrateGridState columns gridState =
     \<lparr>isStuckToBottom = isStuckToBottom gridState,
      isStuckToRight = isStuckToRight gridState,
      movedColumns =
        map (\<lambda>m. \<lparr>saved_from = ByName (name (columns ! nat (move_from m))),
                   saved_to = ByName (name (columns ! nat (move_to m)))\<rparr>)
          (filter (\<lambda>m. move_to m \<ge> 0 \<and> move_to m < int (length columns)
                       \<and> move_from m \<ge> 0 \<and> move_from m < int (length columns))
             (movedColumns gridState)),
      movedRows = movedRows gridState\<rparr>"

text \<open>\<^verbatim>\<open>customColumn.split('=')[0]\<close>: the text before the first equals sign.\<close>

definition parseCustomColumnNames :: "string list \<Rightarrow> string list" where
  "parseCustomColumnNames customColumns =
     map (\<lambda>customColumn. takeWhile (\<lambda>c. c \<noteq> CHR ''='') customColumn) customColumns"

text \<open>The callback that \<open>hydrateGridState\<close> maps over the moved columns.\<close>

definition hydrate_moved_column :: "string list \<Rightarrow> saved_move_operation \<Rightarrow> error + move_operation" where
  "hydrate_moved_column columnNames m =
     (case (saved_to m, saved_from m) of
        (ByName to_name, ByName from_name) \<Rightarrow>
          Inr \<lparr>move_from = findIndex (\<lambda>n. n = from_name) columnNames,
               move_to = findIndex (\<lambda>n. n = to_name) columnNames\<rparr>
      | (ByName to_name, ByIndex from_index) \<Rightarrow> Inl (Error ''string'' [])
      | (ByIndex to_index, ByName from_name) \<Rightarrow> Inl (Error ''string'' [])
      | (ByIndex to_index, ByIndex from_index) \<Rightarrow>
          Inr \<lparr>move_from = from_index, move_to = to_index\<rparr>)"

definition hydrateGridState ::
  "column list \<Rightarrow> saved_move_operation grid_state \<Rightarrow> string list
     \<Rightarrow> error + move_operation grid_state" where
  "hydrateGridState columns gridState customColumns =
     (let customColumnNames = parseCustomColumnNames customColumns;
          columnNames = map name columns @ customColumnNames
      in then_do (map_throwing (hydrate_moved_column columnNames) (movedColumns gridState))
           (\<lambda>moved.
             Inr \<lparr>isStuckToBottom = isStuckToBottom gridState,
                  isStuckToRight = isStuckToRight gridState,
                  movedColumns =
                    filter (\<lambda>m. move_to m \<ge> 0 \<and> move_to m < int (length columnNames)
                                 \<and> move_from m \<ge> 0 \<and> move_from m < int (length columnNames))
                      moved,
                  movedRows = movedRows gridState\<rparr>))"

subsection \<open>Filters\<close>

text \<open>
  \<^verbatim>\<open>TableUtils.makeQuickFilter\<close> is not part of the sources at hand. It is the parameter
  \<open>makeQuickFilter\<close> of the functions that call it: applied to the column, the text and
  the time zone it gives a filter condition (of the type \<open>'f\<close>) or \<^verbatim>\<open>null\<close>, or throws.
\<close>

type_synonym 'f make_quick_filter = "column \<Rightarrow> string \<Rightarrow> string \<Rightarrow> error + 'f option"

text \<open>A quick filter, \<^verbatim>\<open>{ text, filter }\<close>, where the filter may be \<^verbatim>\<open>null\<close>.\<close>

record 'f quick_filter =
  filter_text :: string
  filter_condition :: "'f option"

text \<open>
  \<open>getColumn\<close>, with what it logs. A negative index is below the length too, and reads
  \<^verbatim>\<open>undefined\<close> from the array.
\<close>

definition getColumn :: "column list \<Rightarrow> int \<Rightarrow> log_entry list \<times> column option" where
  "getColumn columns columnIndex =
     (if columnIndex < int (length columns)
      then ([], if 0 \<le> columnIndex then Some (columns ! nat columnIndex) else None)
      else ([LogError ''Unable to retrieve column''], None))"

text \<open>The callback that \<open>hydrateQuickFilters\<close> maps over the saved quick filters.\<close>

definition hydrate_quick_filter ::
  "'f make_quick_filter \<Rightarrow> column list \<Rightarrow> string \<Rightarrow> int \<times> string
     \<Rightarrow> log_entry list \<times> (int \<times> 'f quick_filter)" where
  "hydrate_quick_filter makeQuickFilter columns timeZone saved =
     (let columnIndex = fst saved; text = snd saved;
          (column_log, column) = getColumn columns columnIndex;
          (log, filter) =
            (case column of
               None \<Rightarrow> (column_log, None)
             | Some c \<Rightarrow>
                 (case makeQuickFilter c text timeZone of
                    Inr f \<Rightarrow> (column_log, f)
                  | Inl error \<Rightarrow>
                      (column_log @ [LogError ''hydrateQuickFilters error with''], None)))
      in (log, (columnIndex, \<lparr>filter_text = text, filter_condition = filter\<rparr>)))"

text \<open>
  \<open>hydrateQuickFilters\<close>: what is logged, and the map that is returned. A saved quick
  filter is the pair of its column index and its text.
\<close>

definition hydrateQuickFilters ::
  "'f make_quick_filter \<Rightarrow> column list \<Rightarrow> (int \<times> string) list \<Rightarrow> string
     \<Rightarrow> log_entry list \<times> (int \<times> 'f quick_filter) list" where
  "hydrateQuickFilters makeQuickFilter columns savedQuickFilters timeZone =
     (let imported = map (hydrate_quick_filter makeQuickFilter columns timeZone) savedQuickFilters
      in (concat (map fst imported), Map_of_entries (map snd imported)))"

text \<open>An input filter, \<^verbatim>\<open>{ name, type, value }\<close>.\<close>

record input_filter =
  input_name :: string
  input_type :: string
  input_value :: string

text \<open>
  The callback that \<open>getFiltersFromInputFilters\<close> maps over the input filters; \<open>None\<close>
  is \<^verbatim>\<open>null\<close>.
\<close>

definition filter_from_input_filter ::
  "'f make_quick_filter \<Rightarrow> column list \<Rightarrow> string \<Rightarrow> input_filter \<Rightarrow> log_entry list \<times> 'f option" where
  "filter_from_input_filter makeQuickFilter columns timeZone inputFilter =
     (case find (\<lambda>c. name c = input_name inputFilter \<and> type c = input_type inputFilter) columns of
        Some column \<Rightarrow>
          (case makeQuickFilter column (input_value inputFilter) timeZone of
             Inr f \<Rightarrow> ([], f)
           | Inl e \<Rightarrow> ([LogDebug ''Unable to create input filter''], None))
      | None \<Rightarrow> ([], None))"

definition getFiltersFromInputFilters ::
  "'f make_quick_filter \<Rightarrow> column list \<Rightarrow> input_filter list \<Rightarrow> string \<Rightarrow> log_entry list \<times> 'f list" where
  "getFiltersFromInputFilters makeQuickFilter columns inputFilters timeZone =
     (let made = map (filter_from_input_filter makeQuickFilter columns timeZone) inputFilters
      in (concat (map fst made), map the (filter (\<lambda>f. f \<noteq> None) (map snd made))))"

subsection \<open>Indices\<close>

fun typeof :: "jsvalue \<Rightarrow> string" where
  "typeof JUndefined = ''undefined''"
| "typeof JNull = ''object''"
| "typeof (JBool b) = ''boolean''"
| "typeof (JNum n) = ''number''"
| "typeof (JStr s) = ''string''"
| "typeof (JArr elems) = ''object''"
| "typeof (JObj props) = ''object''"

text \<open>\<^verbatim>\<open>Number.isInteger\<close>: the value is a number, finite, and without a fraction.\<close>

fun Number_isInteger :: "jsvalue \<Rightarrow> bool" where
  "Number_isInteger (JNum (Finite q)) = (of_int \<lfloor>q\<rfloor> = q)"
| "Number_isInteger v = False"

text \<open>\<^verbatim>\<open>n >= 0\<close> for a number; every comparison with \<^verbatim>\<open>NaN\<close> is false.\<close>

fun number_ge_zero :: "jsnumber \<Rightarrow> bool" where
  "number_ge_zero (Finite q) = (q \<ge> 0)"
| "number_ge_zero NaN = False"
| "number_ge_zero PosInfinity = True"
| "number_ge_zero NegInfinity = False"

text \<open>
  \<open>isValidIndex\<close>, with its three checks in their order. The comparison is reached by
  numbers only.
\<close>

definition isValidIndex :: "jsvalue \<Rightarrow> bool" where
  "isValidIndex v =
     (if \<not> Number_isInteger v then False
      else if \<not> (typeof v = ''number'') then False
      else (case v of JNum n \<Rightarrow> number_ge_zero n | _ \<Rightarrow> False))"

subsection \<open>Ranges\<close>

text \<open>
  A range of the grid, \<^verbatim>\<open>GridRange\<close>: each of its four indices is a number or \<^verbatim>\<open>null\<close>.
  The numbers are integers.
\<close>

record grid_range =
  startColumn :: "int option"
  startRow :: "int option"
  endColumn :: "int option"
  endRow :: "int option"

text \<open>
  The text of an index in a template literal: the decimal digits of a number, with its
  sign when it is negative, and \<^verbatim>\<open>null\<close> for \<^verbatim>\<open>null\<close>.
\<close>

definition digit_char :: "nat \<Rightarrow> char" where
  "digit_char d = ''0123456789'' ! d"

function string_of_nat :: "nat \<Rightarrow> string" where
  "string_of_nat n =
     (if n < 10 then [digit_char n] else string_of_nat (n div 10) @ [digit_char (n mod 10)])"
  by pat_completeness auto
termination
  by (relation "measure id") auto

definition string_of_int :: "int \<Rightarrow> string" where
  "string_of_int i =
     (if i < 0 then CHR ''-'' # string_of_nat (nat (- i)) else string_of_nat (nat i))"

definition template_index :: "int option \<Rightarrow> string" where
  "template_index index = (case index of None \<Rightarrow> ''null'' | Some i \<Rightarrow> string_of_int i)"

definition rowMapIndex :: "grid_range \<Rightarrow> string" where
  "rowMapIndex gridRange = template_index (startRow gridRange) @ '':'' @ template_index (endRow gridRange)"

definition columnMapIndex :: "grid_range \<Rightarrow> string" where
  "columnMapIndex gridRange =
     template_index (startColumn gridRange) @ '':'' @ template_index (endColumn gridRange)"

text \<open>\<^verbatim>\<open>Array.prototype.join\<close>.\<close>

fun join :: "string \<Rightarrow> string list \<Rightarrow> string" where
  "join separator [] = ''''"
| "join separator [x] = x"
| "join separator (x # y # ys) = x @ separator @ join separator (y # ys)"

text \<open>
  One round of the first loop of \<open>isValidSnapshotRanges\<close>. The map from the text of a row
  span to the texts of its column spans is the list of its entries in insertion order.
\<close>

definition add_range ::
  "(string \<times> string list) list \<Rightarrow> grid_range \<Rightarrow> (string \<times> string list) list" where
  "add_range rangeMap gridRange =
     (let rangeMap' =
            (if map_of rangeMap (rowMapIndex gridRange) = None
             then AList.update (rowMapIndex gridRange) [] rangeMap
             else rangeMap)
      in AList.map_entry (rowMapIndex gridRange) (\<lambda>spans. spans @ [columnMapIndex gridRange]) rangeMap')"

text \<open>
  \<^verbatim>\<open>rangeMap.get(key).sort().join(',')\<close>. The default order of \<^verbatim>\<open>sort\<close> on strings is
  the lexicographic order of their characters, which is the order of \<open>string\<close> here.
\<close>

definition sorted_spans :: "(string \<times> string list) list \<Rightarrow> string \<Rightarrow> string" where
  "sorted_spans rangeMap key = join '','' (sort (the (map_of rangeMap key)))"

text \<open>\<open>isValidSnapshotRanges\<close>; the argument \<open>None\<close> is \<^verbatim>\<open>null\<close>.\<close>

definition isValidSnapshotRanges :: "grid_range list option \<Rightarrow> bool" where
  "isValidSnapshotRanges ranges =
     (case ranges of
        None \<Rightarrow> False
      | Some rs \<Rightarrow>
          if length rs = 0 then False
          else
            (let rangeMap = fold (\<lambda>gridRange m. add_range m gridRange) rs [];
                 keys = map fst rangeMap;
                 matchColumnRanges = sorted_spans rangeMap (keys ! 0)
             in list_all (\<lambda>key. sorted_spans rangeMap key = matchColumnRanges) (tl keys)))"

section \<open>IntegerColumnFormatter\<close>

text \<open>
  A format object, \<^verbatim>\<open>{ label, type, formatString, multiplier }\<close>; the multiplier may be
  \<^verbatim>\<open>undefined\<close>. The numbers are the finite ones.
\<close>

record integer_column_format =
  label :: string
  format_type :: string
  formatString :: string
  multiplier :: "rat option"

text \<open>
  \<^verbatim>\<open>dh.i18n.NumberFormat.format\<close> belongs to the client API; it is the parameter
  \<open>NumberFormat_format\<close>, which gives the formatted text or throws.
\<close>

type_synonym number_format = "string \<Rightarrow> rat \<Rightarrow> error + string"

text \<open>
  The two variables of \<open>format\<close>, for a formatter whose default format string is
  \<open>defaultFormatString\<close>: the format may be missing; an empty format string and a zero
  multiplier are falsy.
\<close>

definition format_string_of :: "string \<Rightarrow> integer_column_format option \<Rightarrow> string" where
  "format_string_of defaultFormatString fmt =
     (case fmt of
        None \<Rightarrow> defaultFormatString
      | Some f \<Rightarrow> if formatString f \<noteq> [] then formatString f else defaultFormatString)"

definition value_of :: "rat \<Rightarrow> integer_column_format option \<Rightarrow> rat" where
  "value_of valueParam fmt =
     (case fmt of
        None \<Rightarrow> valueParam
      | Some f \<Rightarrow>
          (case multiplier f of
             None \<Rightarrow> valueParam
           | Some m \<Rightarrow> if m \<noteq> 0 then valueParam * m else valueParam))"

text \<open>\<open>format\<close>: what is logged, and the text that is returned.\<close>

definition format ::
  "number_format \<Rightarrow> string \<Rightarrow> rat \<Rightarrow> integer_column_format option \<Rightarrow> log_entry list \<times> string" where
  "format NumberFormat_format defaultFormatString valueParam fmt =
     (case NumberFormat_format (format_string_of defaultFormatString fmt) (value_of valueParam fmt) of
        Inr formatted \<Rightarrow> ([], formatted)
      | Inl e \<Rightarrow> ([LogError ''Invalid format arguments''], ''''))"

section \<open>IrisGridTableModel\<close>

subsection \<open>Numbers\<close>

text \<open>
  The tops and bottoms of viewports, the size of the table and the count of pending rows
  are numbers of the language: the code does not check that they are integers, and
  \<^verbatim>\<open>NaN\<close> and the infinities go where any number goes. The comparisons \<^verbatim>\<open>a < b\<close>,
  \<^verbatim>\<open>a === b\<close>, \<^verbatim>\<open>a <= b\<close> and \<^verbatim>\<open>a >= b\<close> of two numbers are false whenever one of the
  two is \<^verbatim>\<open>NaN\<close>.
\<close>

fun number_less :: "jsnumber \<Rightarrow> jsnumber \<Rightarrow> bool" where
  "number_less (Finite x) (Finite y) = (x < y)"
| "number_less (Finite x) PosInfinity = True"
| "number_less NegInfinity (Finite y) = True"
| "number_less NegInfinity PosInfinity = True"
| "number_less a b = False"

definition strict_equal :: "jsnumber \<Rightarrow> jsnumber \<Rightarrow> bool" where
  "strict_equal a b = (a \<noteq> NaN \<and> a = b)"

definition number_le :: "jsnumber \<Rightarrow> jsnumber \<Rightarrow> bool" where
  "number_le a b = (number_less a b \<or> strict_equal a b)"

definition number_ge :: "jsnumber \<Rightarrow> jsnumber \<Rightarrow> bool" where
  "number_ge a b = number_le b a"

text \<open>
  \<^verbatim>\<open>Math.max\<close> of the numbers given: \<^verbatim>\<open>NaN\<close> as soon as one of them is \<^verbatim>\<open>NaN\<close>, the
  greatest of them otherwise, and \<^verbatim>\<open>-Infinity\<close> for none.
\<close>

definition greater_number :: "jsnumber \<Rightarrow> jsnumber \<Rightarrow> jsnumber" where
  "greater_number a b =
     (if a = NaN \<or> b = NaN then NaN else if number_less a b then b else a)"

definition Math_max :: "jsnumber list \<Rightarrow> jsnumber" where
  "Math_max numbers = fold (\<lambda>n greatest. greater_number greatest n) numbers NegInfinity"

text \<open>
  The sum, the difference and the product of two numbers. On finite numbers they are the
  exact ones: the machine rounds a finite result, or takes it to an infinity when it is
  too large, and never makes it \<^verbatim>\<open>NaN\<close>. An operand \<^verbatim>\<open>NaN\<close> gives \<^verbatim>\<open>NaN\<close>, and so do
  the sum of the two infinities, the difference of an infinity and itself, and the
  product of an infinity and 0.
\<close>

fun number_plus :: "jsnumber \<Rightarrow> jsnumber \<Rightarrow> jsnumber" where
  "number_plus (Finite x) (Finite y) = Finite (x + y)"
| "number_plus NaN b = NaN"
| "number_plus a NaN = NaN"
| "number_plus PosInfinity NegInfinity = NaN"
| "number_plus NegInfinity PosInfinity = NaN"
| "number_plus PosInfinity b = PosInfinity"
| "number_plus NegInfinity b = NegInfinity"
| "number_plus (Finite x) b = b"

fun number_negated :: "jsnumber \<Rightarrow> jsnumber" where
  "number_negated (Finite x) = Finite (- x)"
| "number_negated NaN = NaN"
| "number_negated PosInfinity = NegInfinity"
| "number_negated NegInfinity = PosInfinity"

definition number_minus :: "jsnumber \<Rightarrow> jsnumber \<Rightarrow> jsnumber" where
  "number_minus a b = number_plus a (number_negated b)"

fun number_sign :: "jsnumber \<Rightarrow> int" where
  "number_sign (Finite x) = (if 0 < x then 1 else if x < 0 then - 1 else 0)"
| "number_sign NaN = 0"
| "number_sign PosInfinity = 1"
| "number_sign NegInfinity = - 1"

fun number_times :: "jsnumber \<Rightarrow> jsnumber \<Rightarrow> jsnumber" where
  "number_times (Finite x) (Finite y) = Finite (x * y)"
| "number_times NaN b = NaN"
| "number_times a NaN = NaN"
| "number_times a b =
     (if number_sign a * number_sign b = 0 then NaN
      else if number_sign a * number_sign b > 0 then PosInfinity
      else NegInfinity)"

subsection \<open>The state of the model\<close>

text \<open>
  An array or a map that the code compares with \<^verbatim>\<open>===\<close> carries the identity of the
  object, a number, beside its contents.
\<close>

record column_array =
  array_ref :: nat
  array_elements :: "column list"

record viewport =
  viewport_top :: jsnumber
  viewport_bottom :: jsnumber
  viewport_columns :: column_array

text \<open>
  A row of pending data, \<^verbatim>\<open>{ data }\<close>, is the map from column indices to cells, and the
  pending data is the map from row indices to rows; both are lists of entries in
  insertion order. A cell is modelled by its value. The indices are of the type \<open>'k\<close>:
  any value in the map that is assigned, an integer in the map that the model keeps.
\<close>

record 'k ui_row =
  data :: "('k \<times> jsvalue) list"

record 'k pending_data_map =
  map_ref :: nat
  map_entries :: "('k \<times> 'k ui_row) list"

datatype event = PENDING_DATA_UPDATED | UPDATED

text \<open>
  The viewport subscription is an object of the client API; \<open>None\<close> is \<^verbatim>\<open>null\<close>. The calls
  that apply a viewport to the table or to the subscription are recorded in the state.
\<close>

datatype subscription = Subscription

datatype table_call =
    Table_setViewport jsnumber jsnumber column_array
  | Subscription_setViewport jsnumber jsnumber column_array

text \<open>
  The fields of the model that the modelled methods read or write: \<open>model_columns\<close> is
  \<^verbatim>\<open>this.columns\<close>, \<open>table_size\<close> is \<^verbatim>\<open>this.table.size\<close>, \<open>dispatched\<close> are the events
  dispatched so far and \<open>logged\<close> what was logged, \<open>next_ref\<close> is the identity that the
  next new object gets.
\<close>

record model =
  model_columns :: "column list"
  table_size :: jsnumber
  subscription :: "subscription option"
  viewport :: "viewport option"
  pendingNewDataMap :: "int pending_data_map"
  pendingNewDataErrors :: "nat option"
  pendingNewRowCount :: jsnumber
  formattedStringData :: "string option list list"
  isSaveInProgress :: bool
  dispatched :: "event list"
  logged :: "log_entry list"
  table_calls :: "table_call list"
  next_ref :: nat

text \<open>The fields as the constructor leaves them, for a table with these columns and size.\<close>

definition new_model :: "column list \<Rightarrow> jsnumber \<Rightarrow> model" where
  "new_model table_columns rows =
     \<lparr>model_columns = table_columns,
      table_size = rows,
      subscription = None,
      viewport = None,
      pendingNewDataMap = \<lparr>map_ref = 0, map_entries = []\<rparr>,
      pendingNewDataErrors = None,
      pendingNewRowCount = Finite 0,
      formattedStringData = [],
      isSaveInProgress = False,
      dispatched = [],
      logged = [],
      table_calls = [],
      next_ref = 1\<rparr>"

subsection \<open>Pending data\<close>

text \<open>
  The getter \<open>maxPendingDataRow\<close>: the greatest row index of the pending data plus 1, or
  0 when there is none. The row indices of the map that the model keeps are integers, and
  so is their maximum. The sum is a sum of the machine: the exact one for a row index
  below \<open>2 ^ 53\<close>, a rounded one from there on, where not every integer is a number of the
  language. It is the parameter \<open>plus_one\<close>, so that what is proved of the getter holds
  however the sum is rounded.
\<close>

definition maxPendingDataRow :: "(int \<Rightarrow> int) \<Rightarrow> model \<Rightarrow> jsnumber" where
  "maxPendingDataRow plus_one m =
     (case map fst (map_entries (pendingNewDataMap m)) of
        [] \<Rightarrow> Finite 0
      | key # keys \<Rightarrow> Finite (of_int (plus_one (fold max keys key))))"

text \<open>
  The two nested \<^verbatim>\<open>forEach\<close> loops of the setter of \<open>pendingDataMap\<close>: the first index
  that is not valid is thrown, \<open>None\<close> means that the loops ended.
\<close>

primrec check_column_indices :: "(jsvalue \<times> jsvalue) list \<Rightarrow> error option" where
  "check_column_indices [] = None"
| "check_column_indices (cell # cells) =
     (if \<not> isValidIndex (fst cell) then Some (Error ''Invalid columnIndex'' [fst cell])
      else check_column_indices cells)"

primrec check_row_indices :: "(jsvalue \<times> jsvalue ui_row) list \<Rightarrow> error option" where
  "check_row_indices [] = None"
| "check_row_indices (entry # entries) =
     (if \<not> isValidIndex (fst entry) then Some (Error ''Invalid rowIndex'' [fst entry])
      else (case check_column_indices (data (snd entry)) of
              Some e \<Rightarrow> Some e
            | None \<Rightarrow> check_row_indices entries))"

text \<open>
  The map that the model keeps after the checks: the same entries, each index now the
  integer that it is. (\<open>index_of\<close> is applied to valid indices only.)
\<close>

definition index_of :: "jsvalue \<Rightarrow> int" where
  "index_of v = (case v of JNum (Finite q) \<Rightarrow> \<lfloor>q\<rfloor> | _ \<Rightarrow> 0)"

definition indexed_row :: "jsvalue ui_row \<Rightarrow> int ui_row" where
  "indexed_row row = \<lparr>data = map (\<lambda>cell. (index_of (fst cell), snd cell)) (data row)\<rparr>"

definition indexed_map :: "jsvalue pending_data_map \<Rightarrow> int pending_data_map" where
  "indexed_map m =
     \<lparr>map_ref = map_ref m,
      map_entries = map (\<lambda>entry. (index_of (fst entry), indexed_row (snd entry))) (map_entries m)\<rparr>"

text \<open>
  The setter of \<open>pendingDataMap\<close>: the error it throws, if any, and the model after it.
\<close>

definition set_pendingDataMap ::
  "(int \<Rightarrow> int) \<Rightarrow> jsvalue pending_data_map \<Rightarrow> model \<Rightarrow> error option \<times> model" where
  "set_pendingDataMap plus_one new_map m =
     (if map_ref new_map = map_ref (pendingNewDataMap m) then (None, m)
      else
        (case check_row_indices (map_entries new_map) of
           Some e \<Rightarrow> (Some e, m)
         | None \<Rightarrow>
             (let m1 = m\<lparr>pendingNewDataMap := indexed_map new_map\<rparr>;
                  m2 = m1\<lparr>pendingNewRowCount :=
                            Math_max [pendingNewRowCount m1, maxPendingDataRow plus_one m1]\<rparr>;
                  m3 = m2\<lparr>formattedStringData := []\<rparr>
              in (None, m3\<lparr>dispatched := dispatched m3 @ [PENDING_DATA_UPDATED]\<rparr>))))"

text \<open>The setter of \<open>pendingRowCount\<close>; the count assigned is any number.\<close>

definition set_pendingRowCount :: "(int \<Rightarrow> int) \<Rightarrow> jsnumber \<Rightarrow> model \<Rightarrow> model" where
  "set_pendingRowCount plus_one new_count m =
     (if strict_equal new_count (pendingNewRowCount m) then m
      else
        (let m1 = m\<lparr>pendingNewRowCount :=
                      Math_max [Finite 0, new_count, maxPendingDataRow plus_one m]\<rparr>
         in m1\<lparr>dispatched := dispatched m1 @ [UPDATED]\<rparr>))"

text \<open>
  The rows that \<open>commitPending\<close> sends: one object for each pending row, with the value
  of each cell under the name of its column. A column index beyond the columns reads
  \<^verbatim>\<open>undefined\<close>, and reading its name throws.
\<close>

primrec new_row :: "column list \<Rightarrow> (int \<times> jsvalue) list \<Rightarrow> (string \<times> jsvalue) list
    \<Rightarrow> error + (string \<times> jsvalue) list" where
  "new_row table_columns [] newRow = Inr newRow"
| "new_row table_columns (cell # cells) newRow =
     (if 0 \<le> fst cell \<and> fst cell < int (length table_columns)
      then new_row table_columns cells
             (AList.update (name (table_columns ! nat (fst cell))) (snd cell) newRow)
      else Inl TypeError)"

definition new_rows :: "column list \<Rightarrow> (int \<times> int ui_row) list \<Rightarrow> error + (string \<times> jsvalue) list list" where
  "new_rows table_columns entries =
     map_throwing (\<lambda>entry. new_row table_columns (data (snd entry)) []) entries"

text \<open>
  \<open>commitPending\<close>: what the promise resolves to or rejects with, and the model after it.
  \<open>inputTable\<close> is \<^verbatim>\<open>this.inputTable\<close>, given by what its \<^verbatim>\<open>addRows\<close> does with the rows:
  \<open>None\<close> when it resolves, the error when it rejects; the input table itself may be
  \<^verbatim>\<open>null\<close>. The method is modelled as one step: nothing else runs while it waits for
  \<^verbatim>\<open>addRows\<close>.
\<close>

definition commitPending ::
  "((string \<times> jsvalue) list list \<Rightarrow> error option) option \<Rightarrow> model \<Rightarrow> (error + unit) \<times> model" where
  "commitPending inputTable m =
     (if length (map_entries (pendingNewDataMap m)) \<le> 0
      then (Inl (Error ''No pending changes to commit'' []), m)
      else
        (let m1 = m\<lparr>isSaveInProgress := True\<rparr>
         in case new_rows (model_columns m1) (map_entries (pendingNewDataMap m1)) of
              Inl e \<Rightarrow> (Inl e, m1\<lparr>isSaveInProgress := False\<rparr>)
            | Inr newRows \<Rightarrow>
                (case (case inputTable of None \<Rightarrow> None | Some addRows \<Rightarrow> addRows newRows) of
                   Some e \<Rightarrow> (Inl e, m1\<lparr>isSaveInProgress := False\<rparr>)
                 | None \<Rightarrow>
                     (let m2 = m1\<lparr>logged := logged m1 @ [LogDebug ''commitPending()'']\<rparr>;
                          m3 = m2\<lparr>pendingNewDataMap := \<lparr>map_ref = next_ref m2, map_entries = []\<rparr>,
                                  next_ref := next_ref m2 + 1\<rparr>;
                          m4 = m3\<lparr>pendingNewDataErrors := Some (next_ref m3),
                                  next_ref := next_ref m3 + 1\<rparr>;
                          m5 = m4\<lparr>pendingNewRowCount :=
                                    Math_max [Finite 0,
                                      number_minus
                                        (case viewport m4 of None \<Rightarrow> Finite 0
                                         | Some v \<Rightarrow> viewport_bottom v)
                                        (table_size m4)]\<rparr>;
                          m6 = m5\<lparr>formattedStringData := []\<rparr>;
                          m7 = m6\<lparr>dispatched := dispatched m6 @ [PENDING_DATA_UPDATED]\<rparr>
                      in (Inr (), m7\<lparr>isSaveInProgress := False\<rparr>)))))"

subsection \<open>The viewport\<close>

definition ROW_BUFFER_PAGES :: jsnumber where
  "ROW_BUFFER_PAGES = Finite 1"

text \<open>\<open>getCachedViewportRowRange\<close>; memoizing the function does not change its result.\<close>

definition getCachedViewportRowRange :: "jsnumber \<Rightarrow> jsnumber \<Rightarrow> jsnumber \<times> jsnumber" where
  "getCachedViewportRowRange top_row bottom_row =
     (let viewHeight = number_minus bottom_row top_row;
          viewportTop =
            Math_max [Finite 0, number_minus top_row (number_times viewHeight ROW_BUFFER_PAGES)];
          viewportBottom = number_plus bottom_row (number_times viewHeight ROW_BUFFER_PAGES)
      in (viewportTop, viewportBottom))"

definition applyBufferedViewport :: "jsnumber \<Rightarrow> jsnumber \<Rightarrow> column_array \<Rightarrow> model \<Rightarrow> model" where
  "applyBufferedViewport viewportTop viewportBottom cols m =
     (let m1 = m\<lparr>logged := logged m @ [LogDebug ''applyBufferedViewport'']\<rparr>
      in if subscription m1 = None
         then m1\<lparr>logged := logged m1 @ [LogDebug ''applyBufferedViewport creating new subscription''],
                 subscription := Some Subscription,
                 table_calls := table_calls m1 @ [Table_setViewport viewportTop viewportBottom cols]\<rparr>
         else m1\<lparr>logged := logged m1 @ [LogDebug ''applyBufferedViewport using existing subscription''],
                 table_calls :=
                   table_calls m1 @ [Subscription_setViewport viewportTop viewportBottom cols]\<rparr>)"

text \<open>
  \<open>applyViewport\<close> and \<open>setViewport\<close> are throttled: a call runs the function below at
  once or later, or is dropped for a later call. The model is one run of the function.
\<close>

definition applyViewport :: "model \<Rightarrow> model" where
  "applyViewport m =
     (case viewport m of
        None \<Rightarrow> m
      | Some v \<Rightarrow>
          (let m1 = m\<lparr>logged := logged m @ [LogDebug ''applyViewport'']\<rparr>;
               (viewportTop, viewportBottom) =
                 getCachedViewportRowRange (viewport_top v) (viewport_bottom v)
           in applyBufferedViewport viewportTop viewportBottom (viewport_columns v) m1))"

definition setViewport :: "jsnumber \<Rightarrow> jsnumber \<Rightarrow> column_array \<Rightarrow> model \<Rightarrow> model" where
  "setViewport top_row bottom_row cols m =
     (if number_less bottom_row top_row
      then m\<lparr>logged := logged m @ [LogError ''Invalid viewport'']\<rparr>
      else if (case viewport m of
                 None \<Rightarrow> False
               | Some v \<Rightarrow> strict_equal (viewport_top v) top_row
                   \<and> strict_equal (viewport_bottom v) bottom_row
                   \<and> array_ref (viewport_columns v) = array_ref cols)
      then m\<lparr>logged := logged m @ [LogDebug ''Ignoring duplicate viewport'']\<rparr>
      else
        (let m1 = m\<lparr>viewport := Some \<lparr>viewport_top = top_row, viewport_bottom = bottom_row,
                                       viewport_columns = cols\<rparr>\<rparr>;
             m2 = m1\<lparr>logged := logged m1 @ [LogDebug ''setViewport'']\<rparr>
         in applyViewport m2))"

subsection \<open>Snapshots\<close>

text \<open>
  \<open>snapshot\<close>, up to its two checks. \<^verbatim>\<open>GridRange.consolidate\<close> belongs to the grid package
  and is the parameter \<open>consolidate\<close>; the rest of the method, which collects the rows of
  the consolidated ranges from the subscription, is the parameter \<open>collect\<close>.
\<close>

definition snapshot ::
  "(grid_range list \<Rightarrow> grid_range list) \<Rightarrow> (model \<Rightarrow> grid_range list \<Rightarrow> error + 'rows)
     \<Rightarrow> grid_range list \<Rightarrow> model \<Rightarrow> error + 'rows" where
  "snapshot consolidate collect ranges m =
     (if subscription m = None then Inl (Error ''No subscription available'' [])
      else
        (let consolidated = consolidate ranges
         in if \<not> isValidSnapshotRanges (Some consolidated)
            then Inl (Error ''Invalid snapshot ranges'' [])
            else collect m consolidated))"

text \<open>
  The invariant of the pending rows, \<^verbatim>\<open>pendingNewRowCount >= maxPendingDataRow\<close>: the
  count of pending rows is at least \<open>maxPendingDataRow\<close>.
\<close>

definition pending_invariant :: "(int \<Rightarrow> int) \<Rightarrow> model \<Rightarrow> bool" where
  "pending_invariant plus_one m =
     number_ge (pendingNewRowCount m) (maxPendingDataRow plus_one m)"

text \<open>The row indices of the pending data that the model keeps are not negative.\<close>

definition row_indices_valid :: "model \<Rightarrow> bool" where
  "row_indices_valid m = list_all (\<lambda>entry. 0 \<le> fst entry) (map_entries (pendingNewDataMap m))"

text \<open>
  The spans of a range, and the column spans of the ranges that have a given row span:
  the terms in which the validity of snapshot ranges is stated.
\<close>

definition row_span :: "grid_range \<Rightarrow> int option \<times> int option" where
  "row_span gridRange = (startRow gridRange, endRow gridRange)"

definition column_span :: "grid_range \<Rightarrow> int option \<times> int option" where
  "column_span gridRange = (startColumn gridRange, endColumn gridRange)"

definition column_spans_of ::
  "grid_range list \<Rightarrow> int option \<times> int option \<Rightarrow> (int option \<times> int option) multiset" where
  "column_spans_of ranges rows =
     mset (map column_span (filter (\<lambda>gridRange. row_span gridRange = rows) ranges))"

text \<open>The text of a span, as \<open>rowMapIndex\<close> and \<open>columnMapIndex\<close> write it.\<close>

definition span_text :: "int option \<times> int option \<Rightarrow> string" where
  "span_text s = template_index (fst s) @ '':'' @ template_index (snd s)"

section \<open>Properties of the JavaScript values\<close>

lemma then_do_Inr [simp]: "then_do (Inr v) f = f v"
  by (simp add: then_do_def)

lemma then_do_Inl [simp]: "then_do (Inl e) f = Inl e"
  by (simp add: then_do_def)





lemma to_json_update_undefined:
  "map_of ps k = None \<or> map_of ps k = Some JUndefined \<Longrightarrow>
     to_json (JObj (AList.update k JUndefined ps)) = to_json (JObj ps)"
  by (induction ps) (auto simp: is_defined_prop_def)


section \<open>Properties of LocalWorkspaceStorage\<close>

lemma map_of_update_other: "k' \<noteq> k \<Longrightarrow> map_of (AList.update k x ps) k' = map_of ps k'"
  by (simp add: update_conv')

lemma set_if_undefined_obj:
  "\<exists>ps'. set_if_undefined (JObj ps) k x = Inr (JObj ps')
      \<and> (\<forall>k'. k' \<noteq> k \<longrightarrow> map_of ps' k' = map_of ps k')
      \<and> (x = JUndefined \<longrightarrow> to_json (JObj ps') = to_json (JObj ps))
      \<and> (has_defined (JObj ps) k \<longrightarrow> ps' = ps)"
proof (cases "map_of ps k = None \<or> map_of ps k = Some JUndefined")
  case True
  then have "set_if_undefined (JObj ps) k x = Inr (JObj (AList.update k x ps))"
    by (auto simp: set_if_undefined_def)
  moreover have "\<not> has_defined (JObj ps) k" using True by (auto simp: has_defined_def)
  ultimately show ?thesis
    using to_json_update_undefined[OF True] by (auto simp: map_of_update_other)
next
  case False
  then have "set_if_undefined (JObj ps) k x = Inr (JObj ps)"
    by (auto simp: set_if_undefined_def)
  then show ?thesis by simp
qed

lemma set_if_undefined_not_obj:
  "\<forall>ps. s \<noteq> JObj ps \<Longrightarrow> set_if_undefined s k x = Inl TypeError \<or> (\<exists>xs. s = JArr xs \<and> set_if_undefined s k x = Inr s)"
  by (cases s) (auto simp: set_if_undefined_def)

lemma set_options_fails:
  "\<not> holds_dereferenceable ps k \<Longrightarrow> set_options_if_undefined (JObj ps) k inner c x = Inl TypeError"
  by (auto simp: holds_dereferenceable_def dereferenceable_def set_options_if_undefined_def split: option.splits)

lemma set_options_array_fails:
  "set_options_if_undefined (JArr xs) k inner c x = Inl TypeError"
  by (auto simp: set_options_if_undefined_def)

lemma get_prop_deref: "dereferenceable v \<Longrightarrow> \<exists>r. get_prop v k = Inr r"
  by (cases v) (auto simp: dereferenceable_def)

lemma set_options_ok:
  assumes "holds_dereferenceable ps k"
  shows "\<exists>ps'. set_options_if_undefined (JObj ps) k inner c x = Inr (JObj ps')
      \<and> (\<forall>k'. k' \<noteq> k \<longrightarrow> map_of ps' k' = map_of ps k')
      \<and> (\<not> c \<longrightarrow> ps' = ps)"
proof -
  obtain v where v: "map_of ps k = Some v" "dereferenceable v"
    using assms by (auto simp: holds_dereferenceable_def split: option.splits)
  obtain r where r: "get_prop v inner = Inr r" using get_prop_deref[OF v(2)] by blast
  show ?thesis
    using v r by (auto simp: set_options_if_undefined_def map_of_update_other)
qed

lemma holds_dereferenceable_cong:
  "map_of ps' k = map_of ps k \<Longrightarrow> holds_dereferenceable ps' k = holds_dereferenceable ps k"
  by (simp add: holds_dereferenceable_def)


lemma fill_settings_fails:
  assumes "\<not> (holds_dereferenceable ps ''defaultDecimalFormatOptions''
     \<and> holds_dereferenceable ps ''defaultIntegerFormatOptions''
     \<and> holds_dereferenceable ps ''defaultNotebookSettings'')"
  shows "fill_settings cfg (JObj ps) = Inl TypeError"
proof -
  let ?tz = "of_string_option (config_get cfg ''timeZone'')"
  let ?dt = "of_string_option (config_get cfg ''dateTimeFormat'')"
  let ?tr = "of_bool_option (getBooleanServerConfig cfg ''truncateNumbersWithPound'')"
  obtain p1 where p1: "set_if_undefined (JObj ps) ''timeZone'' ?tz = Inr (JObj p1)"
      "\<forall>k'. k' \<noteq> ''timeZone'' \<longrightarrow> map_of p1 k' = map_of ps k'"
    using set_if_undefined_obj[of ps "''timeZone''" ?tz] by blast
  obtain p2 where p2: "set_if_undefined (JObj p1) ''defaultDateTimeFormat'' ?dt = Inr (JObj p2)"
      "\<forall>k'. k' \<noteq> ''defaultDateTimeFormat'' \<longrightarrow> map_of p2 k' = map_of p1 k'"
    using set_if_undefined_obj[of p1 "''defaultDateTimeFormat''" ?dt] by blast
  show ?thesis
  proof (cases "holds_dereferenceable ps ''defaultDecimalFormatOptions''")
    case False
    then have "\<not> holds_dereferenceable p2 ''defaultDecimalFormatOptions''"
      using p1(2) p2(2) by (simp add: holds_dereferenceable_def)
    from set_options_fails[OF this] show ?thesis
      by (simp only: fill_settings_def p1(1) p2(1) then_do_Inr then_do_Inl)
  next
    case d: True
    then have "holds_dereferenceable p2 ''defaultDecimalFormatOptions''"
      using p1(2) p2(2) by (simp add: holds_dereferenceable_def)
    then obtain p3 where p3: "set_options_if_undefined (JObj p2) ''defaultDecimalFormatOptions''
          ''defaultFormatString'' (config_get cfg ''decimalFormat'' \<noteq> None)
          (of_string_option (config_get cfg ''decimalFormat'')) = Inr (JObj p3)"
        "\<forall>k'. k' \<noteq> ''defaultDecimalFormatOptions'' \<longrightarrow> map_of p3 k' = map_of p2 k'"
      using set_options_ok by blast
    show ?thesis
    proof (cases "holds_dereferenceable ps ''defaultIntegerFormatOptions''")
      case False
      then have "\<not> holds_dereferenceable p3 ''defaultIntegerFormatOptions''"
        using p1(2) p2(2) p3(2) by (simp add: holds_dereferenceable_def)
      from set_options_fails[OF this] show ?thesis
        by (simp only: fill_settings_def p1(1) p2(1) p3(1) then_do_Inr then_do_Inl)
    next
      case i: True
      then have "holds_dereferenceable p3 ''defaultIntegerFormatOptions''"
        using p1(2) p2(2) p3(2) by (simp add: holds_dereferenceable_def)
      then obtain p4 where p4: "set_options_if_undefined (JObj p3) ''defaultIntegerFormatOptions''
            ''defaultFormatString'' (config_get cfg ''integerFormat'' \<noteq> None)
            (of_string_option (config_get cfg ''integerFormat'')) = Inr (JObj p4)"
          "\<forall>k'. k' \<noteq> ''defaultIntegerFormatOptions'' \<longrightarrow> map_of p4 k' = map_of p3 k'"
        using set_options_ok by blast
      obtain p5 where p5: "set_if_undefined (JObj p4) ''truncateNumbersWithPound'' ?tr = Inr (JObj p5)"
          "\<forall>k'. k' \<noteq> ''truncateNumbersWithPound'' \<longrightarrow> map_of p5 k' = map_of p4 k'"
        using set_if_undefined_obj[of p4 "''truncateNumbersWithPound''" ?tr] by blast
      have "\<not> holds_dereferenceable ps ''defaultNotebookSettings''" using assms d i by simp
      then have "\<not> holds_dereferenceable p5 ''defaultNotebookSettings''"
        using p1(2) p2(2) p3(2) p4(2) p5(2) by (simp add: holds_dereferenceable_def)
      from set_options_fails[OF this] show ?thesis
        by (simp only: fill_settings_def p1(1) p2(1) p3(1) p4(1) p5(1) then_do_Inr then_do_Inl)
    qed
  qed
qed

lemma fill_settings_not_obj:
  assumes "\<forall>ps. s \<noteq> JObj ps"
  shows "fill_settings cfg s = Inl TypeError"
  using assms by (cases s) (auto simp: fill_settings_def set_if_undefined_def set_options_if_undefined_def)



lemma load_try_fails:
  assumes "localStorage STORAGE_KEY = None \<or> (\<exists>s. localStorage STORAGE_KEY = Some (NotJson s))
     \<or> (\<exists>w. localStorage STORAGE_KEY = Some (Json w) \<and> \<not> has_settings_structure w)"
  shows "\<exists>e. load_try localStorage cfg = Inl e"
proof -
  consider (absent) "localStorage STORAGE_KEY = None"
    | (junk) s where "localStorage STORAGE_KEY = Some (NotJson s)"
    | (lacks) w where "localStorage STORAGE_KEY = Some (Json w)" "\<not> has_settings_structure w"
    using assms by auto
  then show ?thesis
  proof cases
    case absent
    then show ?thesis by (simp add: load_try_def JSON_parse_def)
  next
    case junk
    then show ?thesis by (simp add: load_try_def JSON_parse_def)
  next
    case lacks
    show ?thesis
    proof (cases "get_prop w ''settings''")
      case (Inl e)
      then show ?thesis by (simp add: load_try_def JSON_parse_def lacks(1))
    next
      case (Inr s0)
      have "fill_settings cfg s0 = Inl TypeError"
      proof (cases "\<exists>ps. s0 = JObj ps")
        case True
        then obtain ps where ps: "s0 = JObj ps" by blast
        have "\<not> (holds_dereferenceable ps ''defaultDecimalFormatOptions''
           \<and> holds_dereferenceable ps ''defaultIntegerFormatOptions''
           \<and> holds_dereferenceable ps ''defaultNotebookSettings'')"
          using lacks(2) Inr ps by (simp add: has_settings_structure_def)
        then show ?thesis unfolding ps by (rule fill_settings_fails)
      next
        case False
        then show ?thesis by (simp add: fill_settings_not_obj)
      qed
      then show ?thesis by (simp add: load_try_def JSON_parse_def lacks(1) Inr)
    qed
  qed
qed

text \<open>
  Claim C2. When the storage holds nothing under the key \<open>STORAGE_KEY\<close>, or a string that
  is not JSON, or a JSON value that lacks the settings structure that \<open>load\<close> dereferences,
  \<open>load\<close> catches the error, logs it, and gives what \<open>makeDefaultWorkspace\<close> gives for
  the layout storage, the options and the server configuration values.
\<close>

theorem load_falls_back_to_default:
  assumes "localStorage STORAGE_KEY = None \<or> (\<exists>s. localStorage STORAGE_KEY = Some (NotJson s))
     \<or> (\<exists>w. localStorage STORAGE_KEY = Some (Json w) \<and> \<not> has_settings_structure w)"
  shows "load getDefaultLayout layoutStorage localStorage options serverConfigValues =
     ([LogInfo ''Unable to load workspace data, initializing to default data''],
      makeDefaultWorkspace getDefaultLayout layoutStorage options serverConfigValues)"
proof -
  obtain e where "load_try localStorage serverConfigValues = Inl e"
    using load_try_fails[of localStorage serverConfigValues] assms by blast
  then show ?thesis by (simp add: load_def)
qed

theorem load_falls_back_to_default_witness:
  "[STORAGE_KEY \<mapsto> Json (JObj [(''settings'', JNull)])] STORAGE_KEY
      = Some (Json (JObj [(''settings'', JNull)]))
   \<and> \<not> has_settings_structure (JObj [(''settings'', JNull)])
   \<and> load (\<lambda>_ _. Inr \<lparr>filterSets = JArr [], links = JArr [], layoutConfig = JArr []\<rparr>) ()
        [STORAGE_KEY \<mapsto> Json (JObj [(''settings'', JNull)])] None None
      = ([LogInfo ''Unable to load workspace data, initializing to default data''],
         makeDefaultWorkspace
           (\<lambda>_ _. Inr \<lparr>filterSets = JArr [], links = JArr [], layoutConfig = JArr []\<rparr>) () None None)"
  using load_falls_back_to_default [of "[STORAGE_KEY \<mapsto> Json (JObj [(''settings'', JNull)])]"
      "\<lambda>_ _. Inr \<lparr>filterSets = JArr [], links = JArr [], layoutConfig = JArr []\<rparr>" "()" None None]
  by (simp add: has_settings_structure_def)




text \<open>
  The workspace that \<open>load\<close> resolves to is not always
  \<^verbatim>\<open>JSON.parse(JSON.stringify(w))\<close> itself: where the saved settings have no \<^verbatim>\<open>timeZone\<close>,
  \<^verbatim>\<open>defaultDateTimeFormat\<close> or \<^verbatim>\<open>truncateNumbersWithPound\<close>, \<open>load\<close> assigns them, and with no
  server configuration values it assigns \<^verbatim>\<open>undefined\<close>.
\<close>

lemma save_then_load_assigns_undefined:
  "load (\<lambda>_ _. Inr \<lparr>filterSets = JArr [], links = JArr [], layoutConfig = JArr []\<rparr>) ()
     (fst (save Map.empty (JObj [(''settings'', JObj [(''defaultDecimalFormatOptions'', JObj []),
        (''defaultIntegerFormatOptions'', JObj []), (''defaultNotebookSettings'', JObj [])])])))
     None None
   = ([], Inr (JObj [(''settings'', JObj [(''defaultDecimalFormatOptions'', JObj []),
        (''defaultIntegerFormatOptions'', JObj []), (''defaultNotebookSettings'', JObj []),
        (''timeZone'', JUndefined), (''defaultDateTimeFormat'', JUndefined),
        (''truncateNumbersWithPound'', JUndefined)])]))"
  by (simp add: JSON_parse_def JSON_stringify_def is_defined_prop_def load_def
      load_try_def save_def fill_settings_def set_if_undefined_def set_options_if_undefined_def
      config_get_def getBooleanServerConfig_def of_string_option_def of_bool_option_def)

subsection \<open>Server configuration values\<close>

text \<open>
  Claim C8. For every map (possibly undefined) and key, \<open>getBooleanServerConfig\<close> returns
  true exactly when the map holds the key with a value that lowercases to \<open>true\<close>, false
  exactly when that value lowercases to \<open>false\<close>, and undefined in every other case,
  which includes the undefined map and the missing key.
\<close>

theorem getBooleanServerConfig_spec:
  "(getBooleanServerConfig m k = Some True \<longleftrightarrow>
      (\<exists>cfg v. m = Some cfg \<and> cfg k = Some v \<and> toLowerCase v = ''true''))
   \<and> (getBooleanServerConfig m k = Some False \<longleftrightarrow>
      (\<exists>cfg v. m = Some cfg \<and> cfg k = Some v \<and> toLowerCase v = ''false''))
   \<and> (getBooleanServerConfig m k = None \<longleftrightarrow>
      \<not> (\<exists>cfg v. m = Some cfg \<and> cfg k = Some v
             \<and> (toLowerCase v = ''true'' \<or> toLowerCase v = ''false'')))
   \<and> getBooleanServerConfig None k = None
   \<and> (\<forall>cfg. cfg k = None \<longrightarrow> getBooleanServerConfig (Some cfg) k = None)"
  by (cases m) (auto simp: getBooleanServerConfig_def config_get_def split: option.splits)

theorem getBooleanServerConfig_spec_witness:
  "getBooleanServerConfig (Some [''showTimeZone'' \<mapsto> ''TRUE'']) ''showTimeZone'' = Some True
   \<and> getBooleanServerConfig (Some [''showTimeZone'' \<mapsto> ''False'']) ''showTimeZone'' = Some False
   \<and> getBooleanServerConfig (Some [''showTimeZone'' \<mapsto> ''yes'']) ''showTimeZone'' = None
   \<and> getBooleanServerConfig (Some [''showTimeZone'' \<mapsto> ''true'']) ''timeZone'' = None
   \<and> getBooleanServerConfig None ''showTimeZone'' = None"
  using getBooleanServerConfig_spec [of "Some [''showTimeZone'' \<mapsto> ''TRUE'']" "''showTimeZone''"]
    getBooleanServerConfig_spec [of "Some [''showTimeZone'' \<mapsto> ''False'']" "''showTimeZone''"]
    getBooleanServerConfig_spec [of "Some [''showTimeZone'' \<mapsto> ''yes'']" "''showTimeZone''"]
    getBooleanServerConfig_spec [of "Some [''showTimeZone'' \<mapsto> ''true'']" "''timeZone''"]
    getBooleanServerConfig_spec [of None "''showTimeZone''"]
  by (simp add: toLowerCase_def toLowerCase_char_def)

section \<open>Properties of IrisGridUtils\<close>

subsection \<open>The state of the grid\<close>

lemma findIndex_distinct:
  "distinct xs \<Longrightarrow> i < length xs \<Longrightarrow> findIndex (\<lambda>n. n = xs ! i) xs = int i"
proof (induction xs arbitrary: i)
  case Nil
  then show ?case by simp
next
  case (Cons x xs)
  show ?case
  proof (cases i)
    case 0
    then show ?thesis by simp
  next
    case (Suc j)
    then have j: "j < length xs" using Cons.prems by simp
    then have "xs ! j \<in> set xs" by simp
    then have "x \<noteq> xs ! j" using Cons.prems by auto
    moreover have "findIndex (\<lambda>n. n = xs ! j) xs = int j"
      using Cons.IH[OF _ j] Cons.prems by simp
    ultimately show ?thesis using Suc by (simp add: Let_def)
  qed
qed

lemma hydrate_dehydrated_column:
  assumes "distinct (map name columns)"
    and "0 \<le> move_from m" "move_from m < int (length columns)"
    and "0 \<le> move_to m" "move_to m < int (length columns)"
  shows "hydrate_moved_column (map name columns)
           \<lparr>saved_from = ByName (name (columns ! nat (move_from m))),
            saved_to = ByName (name (columns ! nat (move_to m)))\<rparr> = Inr m"
proof -
  have f: "findIndex (\<lambda>n. n = name (columns ! nat (move_from m))) (map name columns) = move_from m"
    using findIndex_distinct[OF assms(1), of "nat (move_from m)"] assms(2,3) by simp
  have t: "findIndex (\<lambda>n. n = name (columns ! nat (move_to m))) (map name columns) = move_to m"
    using findIndex_distinct[OF assms(1), of "nat (move_to m)"] assms(4,5) by simp
  show ?thesis by (simp add: hydrate_moved_column_def f t)
qed

lemma map_throwing_map_Inr:
  "\<forall>x \<in> set xs. f (s x) = Inr x \<Longrightarrow> map_throwing f (map s xs) = Inr xs"
  by (induction xs) auto

text \<open>
  Claim C3. For every model whose column names are pairwise distinct and every grid state
  whose moved columns have both indices within the columns, hydrating the dehydrated
  state, with no custom columns, gives back the state: the same \<open>isStuckToBottom\<close>,
  \<open>isStuckToRight\<close> and \<open>movedRows\<close>, and the same index pairs in \<open>movedColumns\<close>.
\<close>

theorem hydrate_dehydrate_grid_state:
  assumes "distinct (map name columns)"
    and "\<forall>m \<in> set (movedColumns gridState).
           0 \<le> move_from m \<and> move_from m < int (length columns)
           \<and> 0 \<le> move_to m \<and> move_to m < int (length columns)"
  shows "hydrateGridState columns (dehydrateGridState columns gridState) [] = Inr gridState"
proof -
  let ?ok = "\<lambda>m. move_to m \<ge> 0 \<and> move_to m < int (length columns)
                 \<and> move_from m \<ge> 0 \<and> move_from m < int (length columns)"
  let ?save = "\<lambda>m. \<lparr>saved_from = ByName (name (columns ! nat (move_from m))),
                     saved_to = ByName (name (columns ! nat (move_to m)))\<rparr>"
  have keep: "filter ?ok (movedColumns gridState) = movedColumns gridState"
    using assms(2) by (auto simp: filter_id_conv)
  have "\<forall>m \<in> set (movedColumns gridState).
          hydrate_moved_column (map name columns) (?save m) = Inr m"
    using assms by (auto intro: hydrate_dehydrated_column)
  then have "map_throwing (hydrate_moved_column (map name columns))
          (map ?save (movedColumns gridState)) = Inr (movedColumns gridState)"
    by (rule map_throwing_map_Inr)
  then show ?thesis
    by (simp add: hydrateGridState_def dehydrateGridState_def parseCustomColumnNames_def keep)
qed

theorem hydrate_dehydrate_grid_state_witness:
  "distinct (map name [\<lparr>name = ''Sym'', type = ''java.lang.String''\<rparr>,
                       \<lparr>name = ''Price'', type = ''double''\<rparr>])
   \<and> hydrateGridState [\<lparr>name = ''Sym'', type = ''java.lang.String''\<rparr>,
                        \<lparr>name = ''Price'', type = ''double''\<rparr>]
        (dehydrateGridState [\<lparr>name = ''Sym'', type = ''java.lang.String''\<rparr>,
                             \<lparr>name = ''Price'', type = ''double''\<rparr>]
           \<lparr>isStuckToBottom = True, isStuckToRight = False,
            movedColumns = [\<lparr>move_from = 0, move_to = 1\<rparr>],
            movedRows = [\<lparr>move_from = 3, move_to = 5\<rparr>]\<rparr>) []
      = Inr \<lparr>isStuckToBottom = True, isStuckToRight = False,
             movedColumns = [\<lparr>move_from = 0, move_to = 1\<rparr>],
             movedRows = [\<lparr>move_from = 3, move_to = 5\<rparr>]\<rparr>"
  using hydrate_dehydrate_grid_state [of "[\<lparr>name = ''Sym'', type = ''java.lang.String''\<rparr>,
      \<lparr>name = ''Price'', type = ''double''\<rparr>]"
      "\<lparr>isStuckToBottom = True, isStuckToRight = False,
        movedColumns = [\<lparr>move_from = 0, move_to = 1\<rparr>],
        movedRows = [\<lparr>move_from = 3, move_to = 5\<rparr>]\<rparr>"]
  by simp

subsection \<open>Filters and formats\<close>

lemma map_of_fold_update:
  "map_of (fold (\<lambda>e m. AList.update (fst e) (snd e) m) es m0) = map_of m0 ++ map_of (rev es)"
proof (induction es arbitrary: m0)
  case Nil
  then show ?case by simp
next
  case (Cons e es)
  show ?case
    by (simp add: Cons.IH update_conv' fun_eq_iff map_add_def split: option.splits)
qed

lemma map_of_Map_of_entries: "map_of (Map_of_entries es) = map_of (rev es)"
  by (simp add: Map_of_entries_def map_of_fold_update)

lemma map_of_Map_of_entries_last:
  assumes "k \<notin> fst ` set post"
  shows "map_of (Map_of_entries (pre @ (k, v) # post)) k = Some v"
proof -
  have "map_of (rev post) k = None" using assms by (simp add: map_of_eq_None_iff)
  then show ?thesis by (simp add: map_of_Map_of_entries map_add_def)
qed

lemma hydrate_quick_filter_index [simp]:
  "fst (snd (hydrate_quick_filter mk columns tz saved)) = fst saved"
  by (simp add: hydrate_quick_filter_def Let_def split: prod.splits)

lemma hydrate_quick_filter_fails:
  assumes "0 \<le> i" "i < int (length columns)" "mk (columns ! nat i) t tz = Inl e"
  shows "hydrate_quick_filter mk columns tz (i, t) =
     ([LogError ''hydrateQuickFilters error with''], (i, \<lparr>filter_text = t, filter_condition = None\<rparr>))"
  using assms by (simp add: hydrate_quick_filter_def getColumn_def)

lemma filter_from_input_filter_fails:
  assumes "find (\<lambda>c. name c = input_name f \<and> type c = input_type f) columns = Some c"
    and "mk c (input_value f) tz = Inl e"
  shows "filter_from_input_filter mk columns tz f = ([LogDebug ''Unable to create input filter''], None)"
  using assms by (simp add: filter_from_input_filter_def)

text \<open>
  Claim C4, as amended. When the builder of a filter or of a number format throws, the
  failure is logged and the feature degrades; none of the three functions throws (each
  returns its value together with the log). \<open>hydrateQuickFilters\<close> maps the column index
  of the saved filter to an entry with the saved text and a \<^verbatim>\<open>null\<close> filter, provided that
  no later saved filter has the same column index (the map keeps the last entry of an
  index); \<open>getFiltersFromInputFilters\<close> leaves the filter out of its result; \<open>format\<close>
  returns the empty string.
\<close>

theorem failures_degrade:
  "(\<forall>pre i t post e. 0 \<le> i \<and> i < int (length columns)
        \<and> makeQuickFilter (columns ! nat i) t timeZone = Inl e \<and> i \<notin> fst ` set post
      \<longrightarrow> map_of (snd (hydrateQuickFilters makeQuickFilter columns (pre @ (i, t) # post) timeZone)) i
            = Some \<lparr>filter_text = t, filter_condition = None\<rparr>
          \<and> LogError ''hydrateQuickFilters error with''
              \<in> set (fst (hydrateQuickFilters makeQuickFilter columns (pre @ (i, t) # post) timeZone)))
   \<and> (\<forall>pre f post c e.
        find (\<lambda>c. name c = input_name f \<and> type c = input_type f) columns = Some c
        \<and> makeQuickFilter c (input_value f) timeZone = Inl e
      \<longrightarrow> snd (getFiltersFromInputFilters makeQuickFilter columns (pre @ f # post) timeZone)
            = snd (getFiltersFromInputFilters makeQuickFilter columns pre timeZone)
              @ snd (getFiltersFromInputFilters makeQuickFilter columns post timeZone)
          \<and> LogDebug ''Unable to create input filter''
              \<in> set (fst (getFiltersFromInputFilters makeQuickFilter columns (pre @ f # post) timeZone)))
   \<and> (\<forall>e. NumberFormat_format (format_string_of defaultFormatString fmt) (value_of valueParam fmt) = Inl e
      \<longrightarrow> format NumberFormat_format defaultFormatString valueParam fmt
            = ([LogError ''Invalid format arguments''], ''''))"
proof (intro conjI allI impI)
  fix pre :: "(int \<times> string) list" and i t and post :: "(int \<times> string) list" and e
  assume a: "0 \<le> i \<and> i < int (length columns)
        \<and> makeQuickFilter (columns ! nat i) t timeZone = Inl e \<and> i \<notin> fst ` set post"
  let ?h = "hydrate_quick_filter makeQuickFilter columns timeZone"
  have h: "?h (i, t) = ([LogError ''hydrateQuickFilters error with''],
      (i, \<lparr>filter_text = t, filter_condition = None\<rparr>))"
    using a hydrate_quick_filter_fails by blast
  have "fst ` set (map snd (map ?h post)) = fst ` set post"
    by (force simp: image_iff)
  then have "i \<notin> fst ` set (map snd (map ?h post))" using a by simp
  then show "map_of (snd (hydrateQuickFilters makeQuickFilter columns (pre @ (i, t) # post) timeZone)) i
            = Some \<lparr>filter_text = t, filter_condition = None\<rparr>"
    using map_of_Map_of_entries_last[of i "map snd (map ?h post)" "map snd (map ?h pre)"]
    by (simp add: hydrateQuickFilters_def h)
  show "LogError ''hydrateQuickFilters error with''
              \<in> set (fst (hydrateQuickFilters makeQuickFilter columns (pre @ (i, t) # post) timeZone))"
    by (simp add: hydrateQuickFilters_def h)
next
  fix pre :: "input_filter list" and f :: input_filter and post :: "input_filter list" and c e
  assume a: "find (\<lambda>c. name c = input_name f \<and> type c = input_type f) columns = Some c
        \<and> makeQuickFilter c (input_value f) timeZone = Inl e"
  have h: "filter_from_input_filter makeQuickFilter columns timeZone f
      = ([LogDebug ''Unable to create input filter''], None)"
    using a filter_from_input_filter_fails by blast
  show "snd (getFiltersFromInputFilters makeQuickFilter columns (pre @ f # post) timeZone)
            = snd (getFiltersFromInputFilters makeQuickFilter columns pre timeZone)
              @ snd (getFiltersFromInputFilters makeQuickFilter columns post timeZone)"
    by (simp add: getFiltersFromInputFilters_def h)
  show "LogDebug ''Unable to create input filter''
              \<in> set (fst (getFiltersFromInputFilters makeQuickFilter columns (pre @ f # post) timeZone))"
    by (simp add: getFiltersFromInputFilters_def h)
next
  fix e
  assume "NumberFormat_format (format_string_of defaultFormatString fmt) (value_of valueParam fmt) = Inl e"
  then show "format NumberFormat_format defaultFormatString valueParam fmt
            = ([LogError ''Invalid format arguments''], '''')"
    by (simp add: format_def)
qed


theorem failures_degrade_witness:
  "map_of (snd (hydrateQuickFilters
       (\<lambda>c t tz. if t = ''bad'' then Inl (Error ''bad'' []) else Inr (Some t))
       [\<lparr>name = ''Sym'', type = ''java.lang.String''\<rparr>, \<lparr>name = ''Price'', type = ''double''\<rparr>]
       [(0, ''bad''), (1, ''good'')] ''UTC'')) 0
     = Some \<lparr>filter_text = ''bad'', filter_condition = None\<rparr>
   \<and> snd (getFiltersFromInputFilters
       (\<lambda>c t tz. if t = ''bad'' then Inl (Error ''bad'' []) else Inr (Some t))
       [\<lparr>name = ''Sym'', type = ''java.lang.String''\<rparr>, \<lparr>name = ''Price'', type = ''double''\<rparr>]
       [\<lparr>input_name = ''Sym'', input_type = ''java.lang.String'', input_value = ''bad''\<rparr>,
        \<lparr>input_name = ''Price'', input_type = ''double'', input_value = ''good''\<rparr>] ''UTC'')
     = [''good'']
   \<and> format (\<lambda>s v. Inl (Error ''bad format'' [])) ''###,##0'' 5 None
     = ([LogError ''Invalid format arguments''], '''')"
proof -
  let ?mk = "\<lambda>(c::column) t (tz::string). if t = ''bad'' then Inl (Error ''bad'' []) else Inr (Some t)"
  let ?columns = "[\<lparr>name = ''Sym'', type = ''java.lang.String''\<rparr>, \<lparr>name = ''Price'', type = ''double''\<rparr>]"
  note all = failures_degrade [of ?columns ?mk "''UTC''" "\<lambda>s v. Inl (Error ''bad format'' [])"
      "''###,##0''" None 5]
  have 1: "map_of (snd (hydrateQuickFilters ?mk ?columns ([] @ (0, ''bad'') # [(1, ''good'')]) ''UTC'')) 0
     = Some \<lparr>filter_text = ''bad'', filter_condition = None\<rparr>"
    using all [THEN conjunct1, rule_format, of 0 "''bad''" _ "[(1, ''good'')]" "[]"] by simp
  have 2: "snd (getFiltersFromInputFilters ?mk ?columns
       ([] @ \<lparr>input_name = ''Sym'', input_type = ''java.lang.String'', input_value = ''bad''\<rparr>
          # [\<lparr>input_name = ''Price'', input_type = ''double'', input_value = ''good''\<rparr>]) ''UTC'')
     = snd (getFiltersFromInputFilters ?mk ?columns [] ''UTC'')
       @ snd (getFiltersFromInputFilters ?mk ?columns
           [\<lparr>input_name = ''Price'', input_type = ''double'', input_value = ''good''\<rparr>] ''UTC'')"
    using all [THEN conjunct2, THEN conjunct1, rule_format,
        of "\<lparr>input_name = ''Sym'', input_type = ''java.lang.String'', input_value = ''bad''\<rparr>"
          "\<lparr>name = ''Sym'', type = ''java.lang.String''\<rparr>" _ "[]"
          "[\<lparr>input_name = ''Price'', input_type = ''double'', input_value = ''good''\<rparr>]"]
    by simp
  have 3: "format (\<lambda>s v. Inl (Error ''bad format'' [])) ''###,##0'' 5 None
     = ([LogError ''Invalid format arguments''], '''')"
    using all [THEN conjunct2, THEN conjunct2, rule_format] by simp
  have 4: "snd (getFiltersFromInputFilters ?mk ?columns [] ''UTC'')
       @ snd (getFiltersFromInputFilters ?mk ?columns
           [\<lparr>input_name = ''Price'', input_type = ''double'', input_value = ''good''\<rparr>] ''UTC'')
     = [''good'']"
    by (simp add: getFiltersFromInputFilters_def filter_from_input_filter_def)
  show ?thesis using 1 2 3 4 by simp
qed

text \<open>
  Claim C4 as it is written fails when two saved quick filters have the same column
  index: the returned map keeps the last of them, so the column index of the filter that
  failed is mapped to the text and the filter of the later one.
\<close>

theorem hydrateQuickFilters_duplicate_index_counterexample:
  "(\<lambda>c t tz. if t = ''bad'' then Inl (Error ''bad'' []) else Inr (Some t))
       ([\<lparr>name = ''Sym'', type = ''java.lang.String''\<rparr>] ! nat 0) ''bad'' ''UTC''
     = (Inl (Error ''bad'' []) :: error + string option)
   \<and> map_of (snd (hydrateQuickFilters
       (\<lambda>c t tz. if t = ''bad'' then Inl (Error ''bad'' []) else Inr (Some t))
       [\<lparr>name = ''Sym'', type = ''java.lang.String''\<rparr>]
       [(0, ''bad''), (0, ''good'')] ''UTC'')) 0
     = Some \<lparr>filter_text = ''good'', filter_condition = Some ''good''\<rparr>
   \<and> map_of (snd (hydrateQuickFilters
       (\<lambda>c t tz. if t = ''bad'' then Inl (Error ''bad'' []) else Inr (Some t))
       [\<lparr>name = ''Sym'', type = ''java.lang.String''\<rparr>]
       [(0, ''bad''), (0, ''good'')] ''UTC'')) 0
     \<noteq> Some \<lparr>filter_text = ''bad'', filter_condition = None\<rparr>"
  by (simp add: hydrateQuickFilters_def hydrate_quick_filter_def getColumn_def Map_of_entries_def
      Let_def)

section \<open>Properties of IrisGridTableModel\<close>

subsection \<open>Numbers\<close>

lemma number_le_Finite [simp]: "number_le (Finite x) (Finite y) \<longleftrightarrow> x \<le> y"
  by (auto simp: number_le_def strict_equal_def)

lemma number_ge_Finite [simp]: "number_ge (Finite x) (Finite y) \<longleftrightarrow> y \<le> x"
  by (simp add: number_ge_def)

lemma strict_equal_Finite [simp]: "strict_equal (Finite x) (Finite y) \<longleftrightarrow> x = y"
  by (simp add: strict_equal_def)

lemma number_minus_Finite [simp]: "number_minus (Finite x) (Finite y) = Finite (x - y)"
  by (simp add: number_minus_def)

lemma number_times_one [simp]: "number_times a (Finite 1) = a"
  by (cases a) simp_all

lemma greater_number_Finite [simp]: "greater_number (Finite x) (Finite y) = Finite (max x y)"
  by (simp add: greater_number_def max_def)

lemma Math_max_pair_Finite [simp]: "Math_max [Finite x, Finite y] = Finite (max x y)"
  by (simp add: Math_max_def greater_number_def max_def)

lemma number_less_NaN [simp]: "\<not> number_less a NaN" "\<not> number_less NaN b"
  by (cases a) simp_all

lemma comparisons_NaN [simp]:
  "\<not> number_le a NaN" "\<not> number_le NaN b" "\<not> number_ge a NaN" "\<not> number_ge NaN b"
  "\<not> strict_equal a NaN" "\<not> strict_equal NaN b"
  by (auto simp: number_le_def number_ge_def strict_equal_def)

lemma greater_number_NegInfinity [simp]: "greater_number NegInfinity a = a"
  by (cases a) (simp_all add: greater_number_def)

lemma Math_max_simps:
  "Math_max [a] = a"
  "Math_max [a, b] = greater_number a b"
  "Math_max [a, b, c] = greater_number (greater_number a b) c"
  by (simp_all add: Math_max_def)

lemma greater_number_NaN_iff: "greater_number a b = NaN \<longleftrightarrow> a = NaN \<or> b = NaN"
  by (cases a; cases b) (simp_all add: greater_number_def)

lemma number_ge_greater_number_left:
  "a \<noteq> NaN \<Longrightarrow> b \<noteq> NaN \<Longrightarrow> number_ge (greater_number a b) a"
  by (cases a; cases b) (auto simp: greater_number_def number_ge_def number_le_def strict_equal_def)

lemma number_ge_greater_number_right:
  "a \<noteq> NaN \<Longrightarrow> b \<noteq> NaN \<Longrightarrow> number_ge (greater_number a b) b"
  by (cases a; cases b) (auto simp: greater_number_def number_ge_def number_le_def strict_equal_def)

lemma number_ge_trans:
  "number_ge a b \<Longrightarrow> number_ge b c \<Longrightarrow> number_ge a c"
  by (cases a; cases b; cases c) (auto simp: number_ge_def number_le_def strict_equal_def)

subsection \<open>The viewport\<close>

text \<open>
  Claim C7. The model applies a buffered viewport: for every current viewport with top
  at most bottom, \<open>applyViewport\<close> makes one call, to the table when there is no
  subscription and to the subscription otherwise, with the rows from
  \<open>max 0 (top - (bottom - top) * ROW_BUFFER_PAGES)\<close> to
  \<open>bottom + (bottom - top) * ROW_BUFFER_PAGES\<close> and the columns of the viewport, where
  \<open>ROW_BUFFER_PAGES\<close> is 1: one page of rows more above, not below row 0, and one page
  more below the visible rows. The formula is that of the code for any two numbers; for
  finite ones the rows go from \<open>max 0 (top - (bottom - top))\<close>, which is at most
  \<open>max 0 top\<close>, to \<open>bottom + (bottom - top)\<close>, which is at least \<open>bottom\<close>.
\<close>

theorem applyViewport_buffers_one_page:
  assumes "viewport m = Some v" and "number_le (viewport_top v) (viewport_bottom v)"
  shows "ROW_BUFFER_PAGES = Finite 1
    \<and> table_calls (applyViewport m) = table_calls m @
        [(if subscription m = None then Table_setViewport else Subscription_setViewport)
           (Math_max [Finite 0,
              number_minus (viewport_top v)
                (number_times (number_minus (viewport_bottom v) (viewport_top v)) ROW_BUFFER_PAGES)])
           (number_plus (viewport_bottom v)
              (number_times (number_minus (viewport_bottom v) (viewport_top v)) ROW_BUFFER_PAGES))
           (viewport_columns v)]
    \<and> getCachedViewportRowRange (viewport_top v) (viewport_bottom v)
        = (Math_max [Finite 0,
             number_minus (viewport_top v) (number_minus (viewport_bottom v) (viewport_top v))],
           number_plus (viewport_bottom v) (number_minus (viewport_bottom v) (viewport_top v)))
    \<and> (\<forall>t b. viewport_top v = Finite t \<and> viewport_bottom v = Finite b \<longrightarrow>
          getCachedViewportRowRange (viewport_top v) (viewport_bottom v)
            = (Finite (max 0 (t - (b - t))), Finite (b + (b - t)))
          \<and> number_le (fst (getCachedViewportRowRange (viewport_top v) (viewport_bottom v)))
              (Math_max [Finite 0, viewport_top v])
          \<and> number_le (viewport_bottom v)
              (snd (getCachedViewportRowRange (viewport_top v) (viewport_bottom v)))
          \<and> max 0 (t - (b - t)) \<le> max 0 t \<and> b \<le> b + (b - t))
    \<and> viewport (applyViewport m) = viewport m"
  using assms
  by (auto simp: applyViewport_def applyBufferedViewport_def getCachedViewportRowRange_def
      ROW_BUFFER_PAGES_def Let_def)

theorem applyViewport_buffers_one_page_witness:
  "number_le
     (viewport_top \<lparr>viewport_top = Finite 10, viewport_bottom = Finite 30,
        viewport_columns = \<lparr>array_ref = 7, array_elements = []\<rparr>\<rparr>)
     (viewport_bottom \<lparr>viewport_top = Finite 10, viewport_bottom = Finite 30,
        viewport_columns = \<lparr>array_ref = 7, array_elements = []\<rparr>\<rparr>)
   \<and> table_calls (applyViewport ((new_model [] (Finite 100))\<lparr>viewport := Some \<lparr>viewport_top = Finite 10,
         viewport_bottom = Finite 30, viewport_columns = \<lparr>array_ref = 7, array_elements = []\<rparr>\<rparr>\<rparr>))
     = [Table_setViewport (Finite 0) (Finite 50) \<lparr>array_ref = 7, array_elements = []\<rparr>]"
  using applyViewport_buffers_one_page [of "(new_model [] (Finite 100))\<lparr>viewport := Some \<lparr>viewport_top = Finite 10,
         viewport_bottom = Finite 30, viewport_columns = \<lparr>array_ref = 7, array_elements = []\<rparr>\<rparr>\<rparr>"
      "\<lparr>viewport_top = Finite 10, viewport_bottom = Finite 30,
         viewport_columns = \<lparr>array_ref = 7, array_elements = []\<rparr>\<rparr>"]
  by (simp add: new_model_def ROW_BUFFER_PAGES_def)

text \<open>
  Claim C10. \<open>setViewport\<close> with bottom below top does not throw: it logs the error and
  returns, with the stored viewport as it was and nothing applied to the table. A call
  with the top, the bottom and the very columns array of the stored viewport leaves the
  viewport as it was and applies nothing either. In both cases only the log has changed.
\<close>

theorem setViewport_ignores_invalid_and_duplicate:
  "(number_less bottom_row top_row \<longrightarrow>
      setViewport top_row bottom_row cols m = m\<lparr>logged := logged m @ [LogError ''Invalid viewport'']\<rparr>)
   \<and> (viewport m = Some v \<and> strict_equal (viewport_top v) top_row
        \<and> strict_equal (viewport_bottom v) bottom_row
        \<and> array_ref (viewport_columns v) = array_ref cols \<and> \<not> number_less bottom_row top_row \<longrightarrow>
      setViewport top_row bottom_row cols m
        = m\<lparr>logged := logged m @ [LogDebug ''Ignoring duplicate viewport'']\<rparr>)
   \<and> (number_less bottom_row top_row
        \<or> (viewport m = Some v \<and> strict_equal (viewport_top v) top_row
            \<and> strict_equal (viewport_bottom v) bottom_row
            \<and> array_ref (viewport_columns v) = array_ref cols) \<longrightarrow>
      viewport (setViewport top_row bottom_row cols m) = viewport m
      \<and> table_calls (setViewport top_row bottom_row cols m) = table_calls m
      \<and> subscription (setViewport top_row bottom_row cols m) = subscription m)"
  by (auto simp: setViewport_def)

theorem setViewport_ignores_invalid_and_duplicate_witness:
  "setViewport (Finite 30) (Finite 10) \<lparr>array_ref = 7, array_elements = []\<rparr> (new_model [] (Finite 100))
     = (new_model [] (Finite 100))\<lparr>logged := [LogError ''Invalid viewport'']\<rparr>
   \<and> setViewport (Finite 10) (Finite 30) \<lparr>array_ref = 7, array_elements = []\<rparr>
       (setViewport (Finite 10) (Finite 30) \<lparr>array_ref = 7, array_elements = []\<rparr> (new_model [] (Finite 100)))
     = (setViewport (Finite 10) (Finite 30) \<lparr>array_ref = 7, array_elements = []\<rparr> (new_model [] (Finite 100)))
         \<lparr>logged := logged (setViewport (Finite 10) (Finite 30) \<lparr>array_ref = 7, array_elements = []\<rparr> (new_model [] (Finite 100)))
            @ [LogDebug ''Ignoring duplicate viewport'']\<rparr>
   \<and> table_calls (setViewport (Finite 10) (Finite 30) \<lparr>array_ref = 7, array_elements = []\<rparr>
       (setViewport (Finite 10) (Finite 30) \<lparr>array_ref = 7, array_elements = []\<rparr> (new_model [] (Finite 100))))
     = [Table_setViewport (Finite 0) (Finite 50) \<lparr>array_ref = 7, array_elements = []\<rparr>]"
proof -
  let ?cols = "\<lparr>array_ref = 7, array_elements = []\<rparr>"
  let ?m = "setViewport (Finite 10) (Finite 30) ?cols (new_model [] (Finite 100))"
  let ?v = "\<lparr>viewport_top = Finite 10, viewport_bottom = Finite 30, viewport_columns = ?cols\<rparr>"
  have v: "viewport ?m = Some ?v"
    by (simp add: setViewport_def new_model_def applyViewport_def applyBufferedViewport_def
        getCachedViewportRowRange_def Let_def)
  have c: "table_calls ?m = [Table_setViewport (Finite 0) (Finite 50) ?cols]"
    by (simp add: setViewport_def new_model_def applyViewport_def applyBufferedViewport_def
        getCachedViewportRowRange_def ROW_BUFFER_PAGES_def Let_def)
  have 1: "setViewport (Finite 30) (Finite 10) ?cols (new_model [] (Finite 100))
     = (new_model [] (Finite 100))\<lparr>logged := logged (new_model [] (Finite 100)) @ [LogError ''Invalid viewport'']\<rparr>"
    using setViewport_ignores_invalid_and_duplicate [where top_row = "Finite 30" and bottom_row = "Finite 10"
        and cols = ?cols and m = "new_model [] (Finite 100)" and v = ?v] by simp
  have 2: "setViewport (Finite 10) (Finite 30) ?cols ?m = ?m\<lparr>logged := logged ?m @ [LogDebug ''Ignoring duplicate viewport'']\<rparr>"
    using setViewport_ignores_invalid_and_duplicate [where top_row = "Finite 10" and bottom_row = "Finite 30"
        and cols = ?cols and m = ?m and v = ?v] v by simp
  have 3: "table_calls (setViewport (Finite 10) (Finite 30) ?cols ?m) = table_calls ?m"
    using setViewport_ignores_invalid_and_duplicate [where top_row = "Finite 10" and bottom_row = "Finite 30"
        and cols = ?cols and m = ?m and v = ?v] v by simp
  have l: "logged (new_model [] (Finite 100)) = []" by (simp add: new_model_def)
  show ?thesis using 1 2 3 c l by simp
qed

subsection \<open>Pending data\<close>

lemma Number_isInteger_iff: "Number_isInteger v \<longleftrightarrow> (\<exists>n. v = of_int_number n)"
proof (cases v rule: Number_isInteger.cases)
  case (1 q)
  have "of_int \<lfloor>q\<rfloor> = q \<longleftrightarrow> (\<exists>n. q = of_int n)"
    by (rule of_int_floor_cancel)
  then show ?thesis using 1 by (simp add: of_int_number_def)
qed (simp_all add: of_int_number_def)

lemma isValidIndex_iff: "isValidIndex v \<longleftrightarrow> (\<exists>n\<ge>0. v = of_int_number n)"
proof
  assume v: "isValidIndex v"
  then have "Number_isInteger v" by (simp add: isValidIndex_def split: if_splits)
  then obtain n where n: "v = of_int_number n" using Number_isInteger_iff by blast
  then have "0 \<le> n" using v by (simp add: isValidIndex_def of_int_number_def split: if_splits)
  then show "\<exists>n\<ge>0. v = of_int_number n" using n by blast
next
  assume "\<exists>n\<ge>0. v = of_int_number n"
  then show "isValidIndex v" by (auto simp: isValidIndex_def of_int_number_def)
qed

lemma check_column_indices_invalid:
  "\<exists>cell \<in> set cells. \<not> isValidIndex (fst cell) \<Longrightarrow> \<exists>e. check_column_indices cells = Some e"
  by (induction cells) auto

lemma check_row_indices_invalid:
  "\<exists>entry \<in> set entries. \<not> isValidIndex (fst entry)
      \<or> (\<exists>cell \<in> set (data (snd entry)). \<not> isValidIndex (fst cell))
   \<Longrightarrow> \<exists>e. check_row_indices entries = Some e"
proof (induction entries)
  case Nil
  then show ?case by simp
next
  case (Cons entry entries)
  show ?case
  proof (cases "\<not> isValidIndex (fst entry) \<or> (\<exists>cell \<in> set (data (snd entry)). \<not> isValidIndex (fst cell))")
    case True
    show ?thesis
    proof (cases "isValidIndex (fst entry)")
      case False
      then show ?thesis by simp
    next
      case valid: True
      then have "\<exists>cell \<in> set (data (snd entry)). \<not> isValidIndex (fst cell)"
        using True by simp
      then obtain e where "check_column_indices (data (snd entry)) = Some e"
        using check_column_indices_invalid by blast
      then show ?thesis using valid by simp
    qed
  next
    case False
    then have "\<exists>e. check_row_indices entries = Some e" using Cons by auto
    then show ?thesis by (auto split: option.splits)
  qed
qed

text \<open>
  Claim C5. Assigning \<open>pendingDataMap\<close> a map other than the current one throws an error
  whenever the new map has a row index, or a column index in the data of a row, for
  which \<open>isValidIndex\<close> is false, that is, which is not a non-negative integer number. The
  error is thrown before anything is assigned: the model, and so its pending data and
  its count of pending rows, is as it was.
\<close>

theorem set_pendingDataMap_rejects_invalid_index:
  assumes "map_ref new_map \<noteq> map_ref (pendingNewDataMap m)"
    and "\<exists>entry \<in> set (map_entries new_map). \<not> isValidIndex (fst entry)
           \<or> (\<exists>cell \<in> set (data (snd entry)). \<not> isValidIndex (fst cell))"
  shows "(\<exists>e. set_pendingDataMap plus_one new_map m = (Some e, m))
    \<and> pendingNewDataMap (snd (set_pendingDataMap plus_one new_map m)) = pendingNewDataMap m
    \<and> pendingNewRowCount (snd (set_pendingDataMap plus_one new_map m)) = pendingNewRowCount m
    \<and> (\<forall>v. isValidIndex v \<longleftrightarrow> (\<exists>n\<ge>0. v = of_int_number n))"
proof -
  obtain e where "check_row_indices (map_entries new_map) = Some e"
    using check_row_indices_invalid[OF assms(2)] by blast
  then have "set_pendingDataMap plus_one new_map m = (Some e, m)"
    using assms(1) by (simp add: set_pendingDataMap_def)
  then show ?thesis using isValidIndex_iff by auto
qed

theorem set_pendingDataMap_rejects_invalid_index_witness:
  "map_ref \<lparr>map_ref = 5, map_entries = [(of_int_number 0, \<lparr>data = [(of_int_number 1, JStr ''a'')]\<rparr>),
       (JNum (Finite (3 / 2)), \<lparr>data = []\<rparr>)]\<rparr> \<noteq> map_ref (pendingNewDataMap (new_model [] (Finite 10)))
   \<and> \<not> isValidIndex (JNum (Finite (3 / 2)))
   \<and> set_pendingDataMap (\<lambda>k. k + 1) \<lparr>map_ref = 5, map_entries = [(of_int_number 0, \<lparr>data = [(of_int_number 1, JStr ''a'')]\<rparr>),
       (JNum (Finite (3 / 2)), \<lparr>data = []\<rparr>)]\<rparr> (new_model [] (Finite 10))
     = (Some (Error ''Invalid rowIndex'' [JNum (Finite (3 / 2))]), new_model [] (Finite 10))"
proof -
  let ?map = "\<lparr>map_ref = 5, map_entries = [(of_int_number 0, \<lparr>data = [(of_int_number 1, JStr ''a'')]\<rparr>),
       (JNum (Finite (3 / 2)), \<lparr>data = []\<rparr>)]\<rparr>"
  have r: "map_ref ?map \<noteq> map_ref (pendingNewDataMap (new_model [] (Finite 10)))"
    by (simp add: new_model_def)
  have i: "\<not> isValidIndex (JNum (Finite (3 / 2)))"
    by code_simp
  have "\<exists>entry \<in> set (map_entries ?map). \<not> isValidIndex (fst entry)
           \<or> (\<exists>cell \<in> set (data (snd entry)). \<not> isValidIndex (fst cell))"
    using i by simp
  from set_pendingDataMap_rejects_invalid_index [OF r this, where plus_one = "\<lambda>k. k + 1"]
  obtain e where e: "set_pendingDataMap (\<lambda>k. k + 1) ?map (new_model [] (Finite 10)) = (Some e, new_model [] (Finite 10))"
    by blast
  have "fst (set_pendingDataMap (\<lambda>k. k + 1) ?map (new_model [] (Finite 10))) = Some (Error ''Invalid rowIndex'' [JNum (Finite (3 / 2))])"
    using i by (simp add: set_pendingDataMap_def new_model_def isValidIndex_def of_int_number_def)
  then show ?thesis using r i e by simp
qed

lemma maxPendingDataRow_Finite: "\<exists>q. maxPendingDataRow plus_one m = Finite q"
  by (simp add: maxPendingDataRow_def split: list.splits)

lemma maxPendingDataRow_eq:
  "maxPendingDataRow plus_one m =
     (if map_entries (pendingNewDataMap m) = [] then Finite 0
      else Finite (of_int (plus_one (Max (fst ` set (map_entries (pendingNewDataMap m)))))))"
proof (cases "map_entries (pendingNewDataMap m)")
  case Nil
  then show ?thesis by (simp add: maxPendingDataRow_def)
next
  case (Cons entry entries)
  have "fold max (map fst entries) (fst entry) = Max (set (fst entry # map fst entries))"
    by (simp only: Max.set_eq_fold)
  then show ?thesis by (simp add: maxPendingDataRow_def Cons)
qed

lemma set_pendingDataMap_invariant:
  assumes "pending_invariant plus_one m"
  shows "pending_invariant plus_one (snd (set_pendingDataMap plus_one new_map m))"
proof -
  let ?m1 = "m\<lparr>pendingNewDataMap := indexed_map new_map\<rparr>"
  obtain q where q: "maxPendingDataRow plus_one ?m1 = Finite q"
    using maxPendingDataRow_Finite by blast
  have c: "pendingNewRowCount m \<noteq> NaN"
    using assms by (auto simp: pending_invariant_def)
  have "number_ge (greater_number (pendingNewRowCount m) (Finite q)) (Finite q)"
    using c by (intro number_ge_greater_number_right) simp_all
  then have "pending_invariant plus_one
      (?m1\<lparr>pendingNewRowCount := Math_max [pendingNewRowCount ?m1, maxPendingDataRow plus_one ?m1],
           formattedStringData := [], dispatched := dispatched m @ [PENDING_DATA_UPDATED]\<rparr>)"
    using q by (simp add: pending_invariant_def Math_max_simps maxPendingDataRow_def)
  then show ?thesis
    using assms by (simp add: set_pendingDataMap_def Let_def split: option.splits)
qed

lemma set_pendingRowCount_invariant:
  assumes "pending_invariant plus_one m" and "new_count \<noteq> NaN"
  shows "pending_invariant plus_one (set_pendingRowCount plus_one new_count m)"
proof -
  obtain q where q: "maxPendingDataRow plus_one m = Finite q"
    using maxPendingDataRow_Finite by blast
  have "greater_number (Finite 0) new_count \<noteq> NaN"
    using assms(2) by (simp add: greater_number_NaN_iff)
  then have "number_ge (greater_number (greater_number (Finite 0) new_count) (Finite q)) (Finite q)"
    by (intro number_ge_greater_number_right) simp_all
  then have "pending_invariant plus_one
      (m\<lparr>pendingNewRowCount := Math_max [Finite 0, new_count, maxPendingDataRow plus_one m],
         dispatched := dispatched m @ [UPDATED]\<rparr>)"
    using q by (simp add: pending_invariant_def Math_max_simps maxPendingDataRow_def)
  then show ?thesis
    using assms(1) by (simp add: set_pendingRowCount_def Let_def)
qed

lemma commitPending_invariant:
  assumes "pending_invariant plus_one m"
    and "number_minus (case viewport m of None \<Rightarrow> Finite 0 | Some v \<Rightarrow> viewport_bottom v)
           (table_size m) \<noteq> NaN"
  shows "pending_invariant plus_one (snd (commitPending inputTable m))"
proof -
  let ?d = "number_minus (case viewport m of None \<Rightarrow> Finite 0 | Some v \<Rightarrow> viewport_bottom v)
           (table_size m)"
  have "number_ge (greater_number (Finite 0) ?d) (Finite 0)"
    using assms(2) by (intro number_ge_greater_number_left) simp_all
  then show ?thesis
    using assms(1)
    by (auto simp: commitPending_def pending_invariant_def Let_def maxPendingDataRow_def
        Math_max_simps split: option.splits sum.splits)
qed

lemma new_model_invariant: "pending_invariant plus_one (new_model table_columns rows)"
  by (simp add: new_model_def pending_invariant_def maxPendingDataRow_def)

lemma check_row_indices_None:
  "check_row_indices entries = None \<Longrightarrow> \<forall>entry \<in> set entries. isValidIndex (fst entry)"
  by (induction entries) (auto split: if_splits option.splits)

lemma index_of_valid: "isValidIndex v \<Longrightarrow> 0 \<le> index_of v"
  using isValidIndex_iff[of v] by (auto simp: index_of_def of_int_number_def)

lemma set_pendingDataMap_row_indices:
  assumes "row_indices_valid m"
  shows "row_indices_valid (snd (set_pendingDataMap plus_one new_map m))"
proof (cases "map_ref new_map = map_ref (pendingNewDataMap m)")
  case True
  then show ?thesis using assms by (simp add: set_pendingDataMap_def)
next
  case other: False
  show ?thesis
  proof (cases "check_row_indices (map_entries new_map)")
    case (Some e)
    then show ?thesis using assms other by (simp add: set_pendingDataMap_def)
  next
    case None
    then have "\<forall>entry \<in> set (map_entries new_map). 0 \<le> index_of (fst entry)"
      using check_row_indices_None index_of_valid by blast
    then have "list_all (\<lambda>entry. 0 \<le> fst entry) (map_entries (indexed_map new_map))"
      by (simp add: indexed_map_def list_all_iff)
    then show ?thesis
      using other None by (simp add: set_pendingDataMap_def row_indices_valid_def Let_def)
  qed
qed

lemma set_pendingRowCount_row_indices:
  "row_indices_valid m \<Longrightarrow> row_indices_valid (set_pendingRowCount plus_one new_count m)"
  by (simp add: set_pendingRowCount_def row_indices_valid_def Let_def)

lemma commitPending_row_indices:
  "row_indices_valid m \<Longrightarrow> row_indices_valid (snd (commitPending inputTable m))"
  by (auto simp: commitPending_def row_indices_valid_def Let_def split: option.splits sum.splits)

lemma pending_invariant_iff:
  assumes "row_indices_valid m"
    and exact: "\<forall>k \<in> fst ` set (map_entries (pendingNewDataMap m)). plus_one k = k + 1"
  shows "pending_invariant plus_one m \<longleftrightarrow>
     number_ge (pendingNewRowCount m) (Finite 0)
     \<and> (\<forall>k \<in> fst ` set (map_entries (pendingNewDataMap m)).
          number_ge (pendingNewRowCount m) (Finite (of_int (k + 1))))"
proof (cases "map_entries (pendingNewDataMap m) = []")
  case True
  then show ?thesis by (simp add: pending_invariant_def maxPendingDataRow_eq)
next
  case False
  let ?K = "fst ` set (map_entries (pendingNewDataMap m))"
  let ?c = "pendingNewRowCount m"
  have fin: "finite ?K" "?K \<noteq> {}" using False by auto
  have top_in: "Max ?K \<in> ?K" using fin by (rule Max_in)
  have "plus_one (Max ?K) = Max ?K + 1" using exact top_in by (rule bspec)
  then have inv: "pending_invariant plus_one m \<longleftrightarrow> number_ge ?c (Finite (of_int (Max ?K + 1)))"
    using False by (simp add: pending_invariant_def maxPendingDataRow_eq)
  obtain entry where e: "entry \<in> set (map_entries (pendingNewDataMap m))"
    and top_entry: "Max ?K = fst entry"
    using top_in by (auto simp: image_iff)
  have top0: "0 \<le> Max ?K"
    unfolding top_entry using assms(1) e by (simp add: row_indices_valid_def list_all_iff)
  show ?thesis
  proof
    assume "pending_invariant plus_one m"
    then have ge: "number_ge ?c (Finite (of_int (Max ?K + 1)))" using inv by simp
    have "number_ge (Finite (of_int (Max ?K + 1))) (Finite 0)" using top0 by simp
    with ge have 0: "number_ge ?c (Finite 0)" by (rule number_ge_trans)
    have "number_ge ?c (Finite (of_int (k + 1)))" if "k \<in> ?K" for k
    proof -
      have "k \<le> Max ?K" using fin(1) that by (rule Max_ge)
      then have "number_ge (Finite (of_int (Max ?K + 1))) (Finite (of_int (k + 1)))" by simp
      with ge show ?thesis by (rule number_ge_trans)
    qed
    with 0 show "number_ge ?c (Finite 0) \<and> (\<forall>k \<in> ?K. number_ge ?c (Finite (of_int (k + 1))))"
      by simp
  next
    assume "number_ge ?c (Finite 0) \<and> (\<forall>k \<in> ?K. number_ge ?c (Finite (of_int (k + 1))))"
    then have "\<forall>k \<in> ?K. number_ge ?c (Finite (of_int (k + 1)))" by (rule conjunct2)
    then have "number_ge ?c (Finite (of_int (Max ?K + 1)))" using top_in by (rule bspec)
    then show "pending_invariant plus_one m" using inv by simp
  qed
qed

text \<open>
  Claim C9, as amended. The count of pending rows is at least \<open>maxPendingDataRow\<close> in the
  model that the constructor makes. The setter of \<open>pendingDataMap\<close> preserves the
  invariant, whether it returns or throws; the setter of \<open>pendingRowCount\<close> preserves it
  when the count assigned is not \<^verbatim>\<open>NaN\<close>; \<open>commitPending\<close> preserves it, whether it
  resolves or rejects, when the bottom of the viewport (0 without a viewport) minus the
  size of the table is not \<^verbatim>\<open>NaN\<close>. The row indices that the model keeps are never
  negative; where the sum of each of them and 1 is exact, as it is for the row indices
  below \<open>2 ^ 53\<close>, the invariant says that the count is at least 0 and at least one
  greater than every row index of the pending data.
\<close>

theorem pending_invariant_preserved:
  "pending_invariant plus_one (new_model table_columns rows)
   \<and> row_indices_valid (new_model table_columns rows)
   \<and> (pending_invariant plus_one m \<longrightarrow>
        pending_invariant plus_one (snd (set_pendingDataMap plus_one new_map m)))
   \<and> (pending_invariant plus_one m \<and> new_count \<noteq> NaN \<longrightarrow>
        pending_invariant plus_one (set_pendingRowCount plus_one new_count m))
   \<and> (pending_invariant plus_one m
        \<and> number_minus (case viewport m of None \<Rightarrow> Finite 0 | Some v \<Rightarrow> viewport_bottom v)
             (table_size m) \<noteq> NaN \<longrightarrow>
        pending_invariant plus_one (snd (commitPending inputTable m)))
   \<and> (row_indices_valid m \<longrightarrow>
        row_indices_valid (snd (set_pendingDataMap plus_one new_map m))
        \<and> row_indices_valid (set_pendingRowCount plus_one new_count m)
        \<and> row_indices_valid (snd (commitPending inputTable m)))
   \<and> (row_indices_valid m
        \<and> (\<forall>k \<in> fst ` set (map_entries (pendingNewDataMap m)). plus_one k = k + 1) \<longrightarrow>
        (pending_invariant plus_one m \<longleftrightarrow>
           number_ge (pendingNewRowCount m) (Finite 0)
           \<and> (\<forall>k \<in> fst ` set (map_entries (pendingNewDataMap m)).
                number_ge (pendingNewRowCount m) (Finite (of_int (k + 1))))))"
proof (intro conjI impI)
  show "pending_invariant plus_one (new_model table_columns rows)"
    by (rule new_model_invariant)
  show "row_indices_valid (new_model table_columns rows)"
    by (simp add: new_model_def row_indices_valid_def)
next
  assume "pending_invariant plus_one m"
  then show "pending_invariant plus_one (snd (set_pendingDataMap plus_one new_map m))"
    by (rule set_pendingDataMap_invariant)
next
  assume "pending_invariant plus_one m \<and> new_count \<noteq> NaN"
  then show "pending_invariant plus_one (set_pendingRowCount plus_one new_count m)"
    by (simp add: set_pendingRowCount_invariant)
next
  assume "pending_invariant plus_one m
        \<and> number_minus (case viewport m of None \<Rightarrow> Finite 0 | Some v \<Rightarrow> viewport_bottom v)
             (table_size m) \<noteq> NaN"
  then show "pending_invariant plus_one (snd (commitPending inputTable m))"
    by (simp add: commitPending_invariant)
next
  assume "row_indices_valid m"
  then show "row_indices_valid (snd (set_pendingDataMap plus_one new_map m))"
    and "row_indices_valid (set_pendingRowCount plus_one new_count m)"
    and "row_indices_valid (snd (commitPending inputTable m))"
    by (rule set_pendingDataMap_row_indices, rule set_pendingRowCount_row_indices,
        rule commitPending_row_indices)
next
  assume "row_indices_valid m
        \<and> (\<forall>k \<in> fst ` set (map_entries (pendingNewDataMap m)). plus_one k = k + 1)"
  then have "row_indices_valid m"
    and "\<forall>k \<in> fst ` set (map_entries (pendingNewDataMap m)). plus_one k = k + 1"
    by (rule conjunct1, rule conjunct2)
  then show "pending_invariant plus_one m \<longleftrightarrow>
           number_ge (pendingNewRowCount m) (Finite 0)
           \<and> (\<forall>k \<in> fst ` set (map_entries (pendingNewDataMap m)).
                number_ge (pendingNewRowCount m) (Finite (of_int (k + 1))))"
    by (rule pending_invariant_iff)
qed

theorem pending_invariant_preserved_witness:
  "pending_invariant (\<lambda>k. k + 1) (new_model [\<lparr>name = ''Sym'', type = ''java.lang.String''\<rparr>] (Finite 10))
   \<and> pending_invariant (\<lambda>k. k + 1) (snd (set_pendingDataMap (\<lambda>k. k + 1)
        \<lparr>map_ref = 5, map_entries = [(of_int_number 4, \<lparr>data = [(of_int_number 0, JStr ''a'')]\<rparr>),
           (of_int_number 0, \<lparr>data = []\<rparr>)]\<rparr>
        (new_model [\<lparr>name = ''Sym'', type = ''java.lang.String''\<rparr>] (Finite 10))))
   \<and> pendingNewRowCount (snd (set_pendingDataMap (\<lambda>k. k + 1)
        \<lparr>map_ref = 5, map_entries = [(of_int_number 4, \<lparr>data = [(of_int_number 0, JStr ''a'')]\<rparr>),
           (of_int_number 0, \<lparr>data = []\<rparr>)]\<rparr>
        (new_model [\<lparr>name = ''Sym'', type = ''java.lang.String''\<rparr>] (Finite 10)))) = Finite 5
   \<and> Finite 2 \<noteq> NaN
   \<and> pendingNewRowCount (set_pendingRowCount (\<lambda>k. k + 1) (Finite 2) (snd (set_pendingDataMap (\<lambda>k. k + 1)
        \<lparr>map_ref = 5, map_entries = [(of_int_number 4, \<lparr>data = [(of_int_number 0, JStr ''a'')]\<rparr>),
           (of_int_number 0, \<lparr>data = []\<rparr>)]\<rparr>
        (new_model [\<lparr>name = ''Sym'', type = ''java.lang.String''\<rparr>] (Finite 10))))) = Finite 5
   \<and> pending_invariant (\<lambda>k. k + 1) (set_pendingRowCount (\<lambda>k. k + 1) (Finite 2) (snd (set_pendingDataMap (\<lambda>k. k + 1)
        \<lparr>map_ref = 5, map_entries = [(of_int_number 4, \<lparr>data = [(of_int_number 0, JStr ''a'')]\<rparr>),
           (of_int_number 0, \<lparr>data = []\<rparr>)]\<rparr>
        (new_model [\<lparr>name = ''Sym'', type = ''java.lang.String''\<rparr>] (Finite 10)))))
   \<and> pendingNewRowCount (snd (commitPending None (snd (set_pendingDataMap (\<lambda>k. k + 1)
        \<lparr>map_ref = 5, map_entries = [(of_int_number 4, \<lparr>data = [(of_int_number 0, JStr ''a'')]\<rparr>),
           (of_int_number 0, \<lparr>data = []\<rparr>)]\<rparr>
        (new_model [\<lparr>name = ''Sym'', type = ''java.lang.String''\<rparr>] (Finite 10)))))) = Finite 0
   \<and> pending_invariant (\<lambda>k. k + 1) (snd (commitPending None (snd (set_pendingDataMap (\<lambda>k. k + 1)
        \<lparr>map_ref = 5, map_entries = [(of_int_number 4, \<lparr>data = [(of_int_number 0, JStr ''a'')]\<rparr>),
           (of_int_number 0, \<lparr>data = []\<rparr>)]\<rparr>
        (new_model [\<lparr>name = ''Sym'', type = ''java.lang.String''\<rparr>] (Finite 10))))))
   \<and> number_ge (pendingNewRowCount (snd (set_pendingDataMap (\<lambda>k. k + 1)
        \<lparr>map_ref = 5, map_entries = [(of_int_number 4, \<lparr>data = [(of_int_number 0, JStr ''a'')]\<rparr>),
           (of_int_number 0, \<lparr>data = []\<rparr>)]\<rparr>
        (new_model [\<lparr>name = ''Sym'', type = ''java.lang.String''\<rparr>] (Finite 10))))) (Finite (of_int (4 + 1)))"
proof -
  let ?p = "\<lambda>k :: int. k + 1"
  let ?m0 = "new_model [\<lparr>name = ''Sym'', type = ''java.lang.String''\<rparr>] (Finite 10)"
  let ?map = "\<lparr>map_ref = 5, map_entries = [(of_int_number 4, \<lparr>data = [(of_int_number 0, JStr ''a'')]\<rparr>),
           (of_int_number 0, \<lparr>data = []\<rparr>)]\<rparr>"
  let ?m1 = "snd (set_pendingDataMap ?p ?map ?m0)"
  have v: "isValidIndex (of_int_number 4)" "isValidIndex (of_int_number 0)"
    by (simp_all add: isValidIndex_def of_int_number_def)
  have m1: "?m1 = ?m0\<lparr>pendingNewDataMap := \<lparr>map_ref = 5,
        map_entries = [(4, \<lparr>data = [(0, JStr ''a'')]\<rparr>), (0, \<lparr>data = []\<rparr>)]\<rparr>,
      pendingNewRowCount := Finite 5, formattedStringData := [], dispatched := [PENDING_DATA_UPDATED]\<rparr>"
    using v by (simp add: set_pendingDataMap_def new_model_def maxPendingDataRow_def indexed_map_def
        indexed_row_def index_of_def of_int_number_def Let_def)
  have d: "number_minus (case viewport ?m1 of None \<Rightarrow> Finite 0 | Some v \<Rightarrow> viewport_bottom v)
             (table_size ?m1) \<noteq> NaN"
    unfolding m1 by (simp add: new_model_def)
  have x: "\<forall>k \<in> fst ` set (map_entries (pendingNewDataMap ?m1)). ?p k = k + 1"
    by simp
  have i0: "pending_invariant ?p ?m0"
    using pending_invariant_preserved
      [where plus_one = ?p and table_columns = "[\<lparr>name = ''Sym'', type = ''java.lang.String''\<rparr>]"
         and rows = "Finite 10"]
    by blast
  have r0: "row_indices_valid ?m0"
    using pending_invariant_preserved
      [where plus_one = ?p and table_columns = "[\<lparr>name = ''Sym'', type = ''java.lang.String''\<rparr>]"
         and rows = "Finite 10"]
    by blast
  have i1: "pending_invariant ?p ?m1"
    using pending_invariant_preserved [where plus_one = ?p and m = ?m0 and new_map = ?map] i0
    by blast
  have r1: "row_indices_valid ?m1"
    using pending_invariant_preserved [where plus_one = ?p and m = ?m0 and new_map = ?map] r0
    by blast
  have n: "Finite 2 \<noteq> NaN" by simp
  have i2: "pending_invariant ?p (set_pendingRowCount ?p (Finite 2) ?m1)"
    using pending_invariant_preserved [where plus_one = ?p and m = ?m1 and new_count = "Finite 2"]
      i1 n by blast
  have i3: "pending_invariant ?p (snd (commitPending None ?m1))"
    using pending_invariant_preserved [where plus_one = ?p and m = ?m1 and inputTable = None]
      i1 d by blast
  have "\<forall>k \<in> fst ` set (map_entries (pendingNewDataMap ?m1)).
          number_ge (pendingNewRowCount ?m1) (Finite (of_int (k + 1)))"
    using pending_invariant_preserved [where plus_one = ?p and m = ?m1] r1 x i1 by blast
  moreover have "4 \<in> fst ` set (map_entries (pendingNewDataMap ?m1))"
    unfolding m1 by simp
  ultimately have g: "number_ge (pendingNewRowCount ?m1) (Finite (of_int (4 + 1)))"
    by (rule bspec)
  have c1: "pendingNewRowCount ?m1 = Finite 5" unfolding m1 by simp
  have c2: "pendingNewRowCount (set_pendingRowCount ?p (Finite 2) ?m1) = Finite 5"
    unfolding m1 by (simp add: set_pendingRowCount_def maxPendingDataRow_def Let_def Math_max_simps)
  have c3: "pendingNewRowCount (snd (commitPending None ?m1)) = Finite 0"
    unfolding m1 by (simp add: commitPending_def new_rows_def Let_def new_model_def Math_max_simps)
  show ?thesis by (intro conjI i0 i1 c1 n c2 i2 c3 i3 g)
qed

text \<open>
  Claim C9 as it was stated fails: the setter of \<open>pendingRowCount\<close> takes any number, and
  \<^verbatim>\<open>Math.max\<close> of 0, \<^verbatim>\<open>NaN\<close> and \<open>maxPendingDataRow\<close> is \<^verbatim>\<open>NaN\<close>. Assigning \<^verbatim>\<open>NaN\<close> to
  the count of a new model, where the invariant holds, stores \<^verbatim>\<open>NaN\<close>, and
  \<^verbatim>\<open>pendingNewRowCount >= maxPendingDataRow\<close> is false from then on.
\<close>

theorem pendingRowCount_NaN_counterexample:
  "pending_invariant (\<lambda>k. k + 1) (new_model [] (Finite 10))
   \<and> pendingNewRowCount (set_pendingRowCount (\<lambda>k. k + 1) NaN (new_model [] (Finite 10))) = NaN
   \<and> \<not> pending_invariant (\<lambda>k. k + 1) (set_pendingRowCount (\<lambda>k. k + 1) NaN (new_model [] (Finite 10)))"
  by (simp add: pending_invariant_def set_pendingRowCount_def new_model_def maxPendingDataRow_def
      Math_max_simps greater_number_def Let_def)

text \<open>The same holds of every model: the setter never preserves the invariant at \<^verbatim>\<open>NaN\<close>.\<close>

lemma set_pendingRowCount_NaN:
  "pendingNewRowCount (set_pendingRowCount plus_one NaN m) = NaN
   \<and> \<not> pending_invariant plus_one (set_pendingRowCount plus_one NaN m)"
  by (simp add: pending_invariant_def set_pendingRowCount_def Math_max_simps greater_number_def
      Let_def)

text \<open>
  \<open>commitPending\<close> reads the bottom of the viewport, and \<open>setViewport\<close> stores a bottom
  \<^verbatim>\<open>NaN\<close>, which is not below any top. With such a viewport and one pending row, the
  invariant holds before \<open>commitPending\<close>, which resolves, and not after it.
\<close>

lemma commitPending_NaN_viewport_bottom:
  "viewport_bottom (the (viewport (setViewport (Finite 0) NaN \<lparr>array_ref = 7, array_elements = []\<rparr>
       (new_model [] (Finite 10))))) = NaN
   \<and> pending_invariant (\<lambda>k. k + 1)
        (snd (set_pendingDataMap (\<lambda>k. k + 1) \<lparr>map_ref = 5, map_entries = [(of_int_number 0, \<lparr>data = []\<rparr>)]\<rparr>
           (setViewport (Finite 0) NaN \<lparr>array_ref = 7, array_elements = []\<rparr> (new_model [] (Finite 10)))))
   \<and> fst (commitPending None
        (snd (set_pendingDataMap (\<lambda>k. k + 1) \<lparr>map_ref = 5, map_entries = [(of_int_number 0, \<lparr>data = []\<rparr>)]\<rparr>
           (setViewport (Finite 0) NaN \<lparr>array_ref = 7, array_elements = []\<rparr> (new_model [] (Finite 10))))))
       = Inr ()
   \<and> pendingNewRowCount (snd (commitPending None
        (snd (set_pendingDataMap (\<lambda>k. k + 1) \<lparr>map_ref = 5, map_entries = [(of_int_number 0, \<lparr>data = []\<rparr>)]\<rparr>
           (setViewport (Finite 0) NaN \<lparr>array_ref = 7, array_elements = []\<rparr> (new_model [] (Finite 10)))))))
       = NaN
   \<and> \<not> pending_invariant (\<lambda>k. k + 1) (snd (commitPending None
        (snd (set_pendingDataMap (\<lambda>k. k + 1) \<lparr>map_ref = 5, map_entries = [(of_int_number 0, \<lparr>data = []\<rparr>)]\<rparr>
           (setViewport (Finite 0) NaN \<lparr>array_ref = 7, array_elements = []\<rparr> (new_model [] (Finite 10)))))))"
proof -
  let ?p = "\<lambda>k :: int. k + 1"
  let ?cols = "\<lparr>array_ref = 7, array_elements = []\<rparr>"
  let ?m1 = "setViewport (Finite 0) NaN ?cols (new_model [] (Finite 10))"
  let ?map = "\<lparr>map_ref = 5, map_entries = [(of_int_number 0, \<lparr>data = []\<rparr>)]\<rparr>"
  let ?m2 = "snd (set_pendingDataMap ?p ?map ?m1)"
  have m1: "?m1 = (new_model [] (Finite 10))
      \<lparr>viewport := Some \<lparr>viewport_top = Finite 0, viewport_bottom = NaN, viewport_columns = ?cols\<rparr>,
        logged := [LogDebug ''setViewport'', LogDebug ''applyViewport'',
          LogDebug ''applyBufferedViewport'',
          LogDebug ''applyBufferedViewport creating new subscription''],
        subscription := Some Subscription,
        table_calls := [Table_setViewport NaN NaN ?cols]\<rparr>"
    by (simp add: setViewport_def applyViewport_def applyBufferedViewport_def
        getCachedViewportRowRange_def ROW_BUFFER_PAGES_def number_minus_def Math_max_simps
        greater_number_def new_model_def Let_def)
  have v: "isValidIndex (of_int_number 0)"
    by (simp add: isValidIndex_def of_int_number_def)
  have m2: "?m2 = ?m1\<lparr>pendingNewDataMap := \<lparr>map_ref = 5, map_entries = [(0, \<lparr>data = []\<rparr>)]\<rparr>,
      pendingNewRowCount := Finite 1, formattedStringData := [],
      dispatched := [PENDING_DATA_UPDATED]\<rparr>"
    unfolding m1 using v
    by (simp add: set_pendingDataMap_def new_model_def maxPendingDataRow_def indexed_map_def
        indexed_row_def index_of_def of_int_number_def Let_def)
  have 1: "viewport_bottom (the (viewport ?m1)) = NaN" unfolding m1 by simp
  have 2: "pending_invariant ?p ?m2"
    by (simp only: m2) (simp only: m1, simp add: pending_invariant_def maxPendingDataRow_def)
  have 3: "fst (commitPending None ?m2) = Inr ()"
    by (simp only: m2)
      (simp only: m1, simp add: commitPending_def new_rows_def map_throwing_def new_model_def Let_def)
  have 4: "pendingNewRowCount (snd (commitPending None ?m2)) = NaN"
    by (simp only: m2)
      (simp only: m1, simp add: commitPending_def new_rows_def map_throwing_def new_model_def
        Let_def number_minus_def Math_max_simps greater_number_def)
  have 5: "\<not> pending_invariant ?p (snd (commitPending None ?m2))"
    using 4 by (simp add: pending_invariant_def)
  show ?thesis by (intro conjI 1 2 3 4 5)
qed

text \<open>
  The sum of \<open>2 ^ 53\<close> and 1 is not a number of the language, and the machine rounds it to
  \<open>2 ^ 53\<close>. With the sum rounded so, and a pending row at the index \<open>2 ^ 53\<close>, the invariant
  holds and the count is the row index itself, not one greater.
\<close>

lemma pending_count_at_rounded_index:
  "pending_invariant (\<lambda>k. if k = 9007199254740992 then k else k + 1)
     (snd (set_pendingDataMap (\<lambda>k. if k = 9007199254740992 then k else k + 1)
        \<lparr>map_ref = 5, map_entries = [(of_int_number 9007199254740992, \<lparr>data = []\<rparr>)]\<rparr>
        (new_model [] (Finite 10))))
   \<and> pendingNewRowCount
       (snd (set_pendingDataMap (\<lambda>k. if k = 9007199254740992 then k else k + 1)
          \<lparr>map_ref = 5, map_entries = [(of_int_number 9007199254740992, \<lparr>data = []\<rparr>)]\<rparr>
          (new_model [] (Finite 10))))
     = Finite 9007199254740992
   \<and> \<not> number_ge (pendingNewRowCount
       (snd (set_pendingDataMap (\<lambda>k. if k = 9007199254740992 then k else k + 1)
          \<lparr>map_ref = 5, map_entries = [(of_int_number 9007199254740992, \<lparr>data = []\<rparr>)]\<rparr>
          (new_model [] (Finite 10)))))
       (Finite (of_int (9007199254740992 + 1)))"
proof -
  let ?p = "\<lambda>k :: int. if k = 9007199254740992 then k else k + 1"
  let ?map = "\<lparr>map_ref = 5, map_entries = [(of_int_number 9007199254740992, \<lparr>data = []\<rparr>)]\<rparr>"
  let ?m1 = "snd (set_pendingDataMap ?p ?map (new_model [] (Finite 10)))"
  have v: "isValidIndex (of_int_number 9007199254740992)"
    by (simp add: isValidIndex_def of_int_number_def)
  have m1: "?m1 = (new_model [] (Finite 10))
      \<lparr>pendingNewDataMap := \<lparr>map_ref = 5, map_entries = [(9007199254740992, \<lparr>data = []\<rparr>)]\<rparr>,
       pendingNewRowCount := Finite 9007199254740992, formattedStringData := [],
       dispatched := [PENDING_DATA_UPDATED]\<rparr>"
    using v by (simp add: set_pendingDataMap_def new_model_def maxPendingDataRow_def indexed_map_def
        indexed_row_def index_of_def of_int_number_def Let_def)
  show ?thesis
    unfolding m1 by (simp add: pending_invariant_def maxPendingDataRow_def new_model_def)
qed

subsection \<open>Snapshot ranges: the text of an index\<close>

lemma digit_char_in: "d < 10 \<Longrightarrow> digit_char d \<in> set ''0123456789''"
  unfolding digit_char_def by (rule nth_mem) simp

lemma digit_char_inj: "d < 10 \<Longrightarrow> d' < 10 \<Longrightarrow> digit_char d = digit_char d' \<Longrightarrow> d = d'"
proof -
  assume "d < 10" "d' < 10" "digit_char d = digit_char d'"
  moreover have "distinct ''0123456789''" by simp
  ultimately show "d = d'"
    unfolding digit_char_def by (simp add: nth_eq_iff_index_eq)
qed

declare string_of_nat.simps [simp del]

lemma string_of_nat_not_Nil: "string_of_nat n \<noteq> []"
  by (subst string_of_nat.simps) simp

lemma set_string_of_nat: "set (string_of_nat n) \<subseteq> set ''0123456789''"
proof (induction n rule: string_of_nat.induct)
  case (1 n)
  show ?case
  proof (cases "n < 10")
    case True
    then show ?thesis
      using digit_char_in[of n] by (subst string_of_nat.simps) simp
  next
    case False
    have "n mod 10 < 10" by simp
    then have "digit_char (n mod 10) \<in> set ''0123456789''" by (rule digit_char_in)
    then show ?thesis
      using False 1 by (subst string_of_nat.simps) simp
  qed
qed

lemma string_of_nat_inj: "string_of_nat n = string_of_nat m \<Longrightarrow> n = m"
proof (induction n arbitrary: m rule: string_of_nat.induct)
  case (1 n)
  show ?case
  proof (cases "n < 10")
    case n: True
    show ?thesis
    proof (cases "m < 10")
      case True
      then show ?thesis
        using n 1(2) digit_char_inj[of n m]
        by (simp add: string_of_nat.simps[of n] string_of_nat.simps[of m])
    next
      case False
      then show ?thesis
        using n 1(2) string_of_nat_not_Nil[of "m div 10"]
        by (simp add: string_of_nat.simps[of n] string_of_nat.simps[of m])
    qed
  next
    case n: False
    show ?thesis
    proof (cases "m < 10")
      case True
      then show ?thesis
        using n 1(2) string_of_nat_not_Nil[of "n div 10"]
        by (simp add: string_of_nat.simps[of n] string_of_nat.simps[of m])
    next
      case False
      then have eq: "string_of_nat (n div 10) = string_of_nat (m div 10)"
          "digit_char (n mod 10) = digit_char (m mod 10)"
        using n 1(2) by (simp_all add: string_of_nat.simps[of n] string_of_nat.simps[of m])
      have "n div 10 = m div 10" using 1(1)[OF n eq(1)] .
      moreover have "n mod 10 = m mod 10" using eq(2) by (intro digit_char_inj) simp_all
      ultimately show ?thesis by (metis div_mult_mod_eq)
    qed
  qed
qed

lemma set_string_of_int: "set (string_of_int i) \<subseteq> set ''-0123456789''"
proof
  fix c assume c: "c \<in> set (string_of_int i)"
  have sub: "set ''0123456789'' \<subseteq> set ''-0123456789''" by (simp add: subset_insertI2)
  show "c \<in> set ''-0123456789''"
  proof (cases "i < 0")
    case True
    then have "c = CHR ''-'' \<or> c \<in> set (string_of_nat (nat (- i)))"
      using c by (simp add: string_of_int_def)
    then show ?thesis
    proof
      assume "c = CHR ''-''"
      then show ?thesis by simp
    next
      assume "c \<in> set (string_of_nat (nat (- i)))"
      then have "c \<in> set ''0123456789''" using set_string_of_nat by (rule subsetD[rotated])
      then show ?thesis using sub by (rule subsetD[rotated])
    qed
  next
    case False
    then have "c \<in> set (string_of_nat (nat i))" using c by (simp add: string_of_int_def)
    then have "c \<in> set ''0123456789''" using set_string_of_nat by (rule subsetD[rotated])
    then show ?thesis using sub by (rule subsetD[rotated])
  qed
qed

lemma string_of_int_not_Nil: "string_of_int i \<noteq> []"
  by (simp add: string_of_int_def string_of_nat_not_Nil)

lemma string_of_int_inj: "string_of_int i = string_of_int j \<Longrightarrow> i = j"
proof -
  assume eq: "string_of_int i = string_of_int j"
  have no_minus: "CHR ''-'' \<notin> set (string_of_nat n)" for n
  proof
    assume "CHR ''-'' \<in> set (string_of_nat n)"
    then have "CHR ''-'' \<in> set ''0123456789''" using set_string_of_nat by (rule subsetD[rotated])
    then show False by simp
  qed
  show "i = j"
  proof (cases "i < 0"; cases "j < 0")
    assume "i < 0" "j < 0"
    then have "string_of_nat (nat (- i)) = string_of_nat (nat (- j))"
      using eq by (simp add: string_of_int_def)
    then have "nat (- i) = nat (- j)" by (rule string_of_nat_inj)
    then show ?thesis using \<open>i < 0\<close> \<open>j < 0\<close> by simp
  next
    assume "i < 0" "\<not> j < 0"
    then have "string_of_nat (nat j) = CHR ''-'' # string_of_nat (nat (- i))"
      using eq by (simp add: string_of_int_def)
    then have "CHR ''-'' \<in> set (string_of_nat (nat j))" by simp
    then show ?thesis using no_minus by blast
  next
    assume "\<not> i < 0" "j < 0"
    then have "string_of_nat (nat i) = CHR ''-'' # string_of_nat (nat (- j))"
      using eq by (simp add: string_of_int_def)
    then have "CHR ''-'' \<in> set (string_of_nat (nat i))" by simp
    then show ?thesis using no_minus by blast
  next
    assume "\<not> i < 0" "\<not> j < 0"
    then have "string_of_nat (nat i) = string_of_nat (nat j)"
      using eq by (simp add: string_of_int_def)
    then have "nat i = nat j" by (rule string_of_nat_inj)
    then show ?thesis using \<open>\<not> i < 0\<close> \<open>\<not> j < 0\<close> by simp
  qed
qed

lemma set_template_index: "set (template_index x) \<subseteq> set ''-0123456789nul''"
proof (cases x)
  case None
  then show ?thesis by (simp add: template_index_def)
next
  case (Some i)
  have "set ''-0123456789'' \<subseteq> set ''-0123456789nul''" by auto
  then show ?thesis using set_string_of_int[of i] Some by (simp only: template_index_def option.case)
qed

lemma template_index_not_Nil: "template_index x \<noteq> []"
  by (cases x) (simp_all add: template_index_def string_of_int_not_Nil)

lemma template_index_inj: "template_index x = template_index y \<Longrightarrow> x = y"
proof -
  assume eq: "template_index x = template_index y"
  have no_n: "string_of_int i \<noteq> ''null''" for i
  proof
    assume "string_of_int i = ''null''"
    then have "CHR ''n'' \<in> set (string_of_int i)" by simp
    then have "CHR ''n'' \<in> set ''-0123456789''" using set_string_of_int by (rule subsetD[rotated])
    then show False by simp
  qed
  show "x = y"
  proof (cases x; cases y)
    fix i j assume "x = Some i" "y = Some j"
    then show ?thesis using eq string_of_int_inj by (simp add: template_index_def)
  next
    fix j assume "x = None" "y = Some j"
    then show ?thesis using eq no_n[of j] by (simp add: template_index_def)
  next
    fix i assume "x = Some i" "y = None"
    then show ?thesis using eq no_n[of i] by (simp add: template_index_def)
  qed simp
qed


subsection \<open>The text of a span and of a list of spans\<close>

lemma append_separator_inj:
  "c \<notin> set x \<Longrightarrow> c \<notin> set x' \<Longrightarrow> x @ c # y = x' @ c # y' \<Longrightarrow> x = x' \<and> y = y'"
proof (induction x arbitrary: x')
  case Nil
  then show ?case by (cases x') auto
next
  case (Cons a x)
  then show ?case by (cases x') auto
qed

lemma no_colon: "CHR '':'' \<notin> set (template_index x)"
proof
  assume "CHR '':'' \<in> set (template_index x)"
  then have "CHR '':'' \<in> set ''-0123456789nul''" using set_template_index by (rule subsetD[rotated])
  then show False by simp
qed

lemma no_comma: "CHR '','' \<notin> set (template_index x)"
proof
  assume "CHR '','' \<in> set (template_index x)"
  then have "CHR '','' \<in> set ''-0123456789nul''" using set_template_index by (rule subsetD[rotated])
  then show False by simp
qed

lemma span_text_inj: "span_text s = span_text t \<Longrightarrow> s = t"
proof -
  assume "span_text s = span_text t"
  then have "template_index (fst s) @ CHR '':'' # template_index (snd s)
      = template_index (fst t) @ CHR '':'' # template_index (snd t)"
    by (simp add: span_text_def)
  then have "template_index (fst s) = template_index (fst t) \<and> template_index (snd s) = template_index (snd t)"
    using no_colon by (intro append_separator_inj)
  then show "s = t" using template_index_inj by (simp add: prod_eq_iff)
qed

lemma inj_span_text: "inj span_text"
  using span_text_inj by (rule injI)

lemma span_text_no_comma: "CHR '','' \<notin> set (span_text s)"
  using no_comma by (simp add: span_text_def)

lemma span_text_not_Nil: "span_text s \<noteq> []"
  by (simp add: span_text_def)

lemma rowMapIndex_span: "rowMapIndex r = span_text (row_span r)"
  by (simp add: rowMapIndex_def span_text_def row_span_def)

lemma columnMapIndex_span: "columnMapIndex r = span_text (column_span r)"
  by (simp add: columnMapIndex_def span_text_def column_span_def)

lemma join_Cons: "join sep (x # xs) = x @ (if xs = [] then [] else sep @ join sep xs)"
  by (cases xs) simp_all

lemma append_tail_inj:
  assumes "c \<notin> set x" "c \<notin> set x'"
    and "r = [] \<or> (\<exists>t. r = c # t)" "r' = [] \<or> (\<exists>t. r' = c # t)"
    and "x @ r = x' @ r'"
  shows "x = x' \<and> r = r'"
  using assms
proof (induction x arbitrary: x')
  case Nil
  then show ?case by (cases x') auto
next
  case (Cons a x)
  then show ?case by (cases x') auto
qed

lemma join_comma_inj:
  assumes "\<forall>x \<in> set xs. x \<noteq> [] \<and> CHR '','' \<notin> set x"
    and "\<forall>y \<in> set ys. y \<noteq> [] \<and> CHR '','' \<notin> set y"
    and "join '','' xs = join '','' ys"
  shows "xs = ys"
  using assms
proof (induction xs arbitrary: ys)
  case Nil
  then show ?case by (cases ys) (auto simp: join_Cons)
next
  case (Cons x xs)
  show ?case
  proof (cases ys)
    case Nil
    then show ?thesis using Cons.prems by (auto simp: join_Cons)
  next
    case ys: (Cons y ys')
    let ?r = "if xs = [] then [] else '','' @ join '','' xs"
    let ?r' = "if ys' = [] then [] else '','' @ join '','' ys'"
    have eq: "x @ ?r = y @ ?r'" using Cons.prems(3) ys by (simp only: join_Cons)
    have x: "CHR '','' \<notin> set x" and y: "CHR '','' \<notin> set y"
      using Cons.prems(1,2) ys by simp_all
    have r: "?r = [] \<or> (\<exists>t. ?r = CHR '','' # t)" by simp
    have r': "?r' = [] \<or> (\<exists>t. ?r' = CHR '','' # t)" by simp
    have xy: "x = y \<and> ?r = ?r'" using x y r r' eq by (rule append_tail_inj)
    have "xs = ys'"
    proof (cases "xs = []")
      case True
      then show ?thesis using xy by (auto split: if_splits)
    next
      case False
      then have "ys' \<noteq> []" using xy by (auto split: if_splits)
      then have "join '','' xs = join '','' ys'" using xy False by simp
      then show ?thesis using Cons.IH[of ys'] Cons.prems(1,2) ys by simp
    qed
    then show ?thesis using xy ys by simp
  qed
qed

lemma sort_eq_iff_mset: "sort xs = sort ys \<longleftrightarrow> mset xs = mset ys"
proof
  assume "sort xs = sort ys"
  then have "mset (sort xs) = mset (sort ys)" by simp
  then show "mset xs = mset ys" by simp
next
  assume "mset xs = mset ys"
  then have "mset (sort ys) = mset xs" by simp
  then show "sort xs = sort ys" by (rule properties_for_sort) simp
qed

lemma sorted_join_eq_iff:
  "join '','' (sort (map span_text ss)) = join '','' (sort (map span_text ts))
     \<longleftrightarrow> mset ss = mset ts"
proof -
  have good: "\<forall>x \<in> set (sort (map span_text us)). x \<noteq> [] \<and> CHR '','' \<notin> set x" for us
    using span_text_no_comma span_text_not_Nil by auto
  have "join '','' (sort (map span_text ss)) = join '','' (sort (map span_text ts))
     \<longleftrightarrow> sort (map span_text ss) = sort (map span_text ts)"
    using join_comma_inj[OF good[of ss] good[of ts]] by (auto intro: arg_cong)
  also have "\<dots> \<longleftrightarrow> mset (map span_text ss) = mset (map span_text ts)"
    by (rule sort_eq_iff_mset)
  also have "\<dots> \<longleftrightarrow> image_mset span_text (mset ss) = image_mset span_text (mset ts)"
    by simp
  also have "\<dots> \<longleftrightarrow> mset ss = mset ts"
    using multiset.inj_map[OF inj_span_text] by (rule inj_eq)
  finally show ?thesis .
qed


subsection \<open>The map from row spans to column spans\<close>

lemma map_of_add_range:
  "map_of (add_range M r) =
     (map_of M)(rowMapIndex r \<mapsto>
        (case map_of M (rowMapIndex r) of None \<Rightarrow> [] | Some v \<Rightarrow> v) @ [columnMapIndex r])"
  by (auto simp: add_range_def Let_def map_of_map_entry update_conv' fun_eq_iff
      split: option.splits)

lemma map_of_range_map:
  "map_of (fold (\<lambda>gridRange m. add_range m gridRange) rs []) =
     (\<lambda>k. if k \<in> rowMapIndex ` set rs
          then Some (map columnMapIndex (filter (\<lambda>r. rowMapIndex r = k) rs)) else None)"
proof (induction rs rule: rev_induct)
  case Nil
  then show ?case by (simp add: fun_eq_iff)
next
  case (snoc r rs)
  have "filter (\<lambda>x. rowMapIndex x = rowMapIndex r) rs = []"
    if h: "rowMapIndex r \<notin> rowMapIndex ` set rs"
  proof -
    have "\<forall>x \<in> set rs. rowMapIndex x \<noteq> rowMapIndex r"
    proof (intro ballI notI)
      fix x assume "x \<in> set rs" "rowMapIndex x = rowMapIndex r"
      then have "rowMapIndex r \<in> rowMapIndex ` set rs" by (metis imageI)
      then show False using h by contradiction
    qed
    then show ?thesis by (simp add: filter_empty_conv)
  qed
  then show ?case
    by (auto simp: map_of_add_range snoc.IH fun_eq_iff)
qed

lemma keys_range_map:
  "set (map fst (fold (\<lambda>gridRange m. add_range m gridRange) rs [])) = rowMapIndex ` set rs"
proof -
  let ?M = "fold (\<lambda>gridRange m. add_range m gridRange) rs []"
  have "fst ` set ?M = dom (map_of ?M)" by (simp add: dom_map_of_conv_image_fst)
  also have "\<dots> = rowMapIndex ` set rs"
    by (auto simp: map_of_range_map dom_def)
  finally show ?thesis by simp
qed

lemma sorted_spans_range_map:
  assumes "a \<in> set rs"
  shows "sorted_spans (fold (\<lambda>gridRange m. add_range m gridRange) rs []) (rowMapIndex a)
     = join '','' (sort (map span_text (map column_span (filter (\<lambda>r. row_span r = row_span a) rs))))"
proof -
  have "(\<lambda>r. rowMapIndex r = rowMapIndex a) = (\<lambda>r. row_span r = row_span a)"
    by (simp add: rowMapIndex_span inj_eq[OF inj_span_text])
  then have "map columnMapIndex (filter (\<lambda>r. rowMapIndex r = rowMapIndex a) rs)
     = map span_text (map column_span (filter (\<lambda>r. row_span r = row_span a) rs))"
    by (simp add: columnMapIndex_span[abs_def] comp_def)
  then show ?thesis using assms by (simp add: sorted_spans_def map_of_range_map)
qed

lemma sorted_spans_eq_iff:
  assumes "a \<in> set rs" "b \<in> set rs"
  shows "sorted_spans (fold (\<lambda>gridRange m. add_range m gridRange) rs []) (rowMapIndex a)
       = sorted_spans (fold (\<lambda>gridRange m. add_range m gridRange) rs []) (rowMapIndex b)
     \<longleftrightarrow> column_spans_of rs (row_span a) = column_spans_of rs (row_span b)"
  unfolding sorted_spans_range_map[OF assms(1)] sorted_spans_range_map[OF assms(2)]
    sorted_join_eq_iff column_spans_of_def
  by simp


lemma isValidSnapshotRanges_iff:
  assumes "rs \<noteq> []"
  shows "isValidSnapshotRanges (Some rs) \<longleftrightarrow>
     (\<forall>a \<in> set rs. \<forall>b \<in> set rs.
        column_spans_of rs (row_span a) = column_spans_of rs (row_span b))"
proof -
  let ?M = "fold (\<lambda>gridRange m. add_range m gridRange) rs []"
  let ?keys = "map fst ?M"
  have keys: "set ?keys = rowMapIndex ` set rs" by (rule keys_range_map)
  then have ne: "?keys \<noteq> []" using assms by auto
  then have split: "?keys = hd ?keys # tl ?keys" by (rule hd_Cons_tl[symmetric])
  have first: "?keys ! 0 = hd ?keys" using ne by (rule hd_conv_nth[symmetric])
  have "isValidSnapshotRanges (Some rs) \<longleftrightarrow>
      (\<forall>k \<in> set (tl ?keys). sorted_spans ?M k = sorted_spans ?M (hd ?keys))"
    using assms first by (simp add: isValidSnapshotRanges_def Let_def list_all_iff)
  also have "\<dots> \<longleftrightarrow> (\<forall>k \<in> set ?keys. sorted_spans ?M k = sorted_spans ?M (hd ?keys))"
    by (subst (2) split) simp
  also have "\<dots> \<longleftrightarrow> (\<forall>k \<in> set ?keys. \<forall>k' \<in> set ?keys. sorted_spans ?M k = sorted_spans ?M k')"
  proof
    assume h: "\<forall>k \<in> set ?keys. sorted_spans ?M k = sorted_spans ?M (hd ?keys)"
    show "\<forall>k \<in> set ?keys. \<forall>k' \<in> set ?keys. sorted_spans ?M k = sorted_spans ?M k'"
    proof (intro ballI)
      fix k k' assume "k \<in> set ?keys" "k' \<in> set ?keys"
      then have "sorted_spans ?M k = sorted_spans ?M (hd ?keys)"
          "sorted_spans ?M k' = sorted_spans ?M (hd ?keys)"
        using h by blast+
      then show "sorted_spans ?M k = sorted_spans ?M k'" by simp
    qed
  next
    assume h: "\<forall>k \<in> set ?keys. \<forall>k' \<in> set ?keys. sorted_spans ?M k = sorted_spans ?M k'"
    have "hd ?keys \<in> set ?keys" using ne by (rule hd_in_set)
    then show "\<forall>k \<in> set ?keys. sorted_spans ?M k = sorted_spans ?M (hd ?keys)"
      using h by blast
  qed
  also have "\<dots> \<longleftrightarrow> (\<forall>a \<in> set rs. \<forall>b \<in> set rs.
      sorted_spans ?M (rowMapIndex a) = sorted_spans ?M (rowMapIndex b))"
    unfolding keys by blast
  also have "\<dots> \<longleftrightarrow> (\<forall>a \<in> set rs. \<forall>b \<in> set rs.
      column_spans_of rs (row_span a) = column_spans_of rs (row_span b))"
    using sorted_spans_eq_iff by blast
  finally show ?thesis .
qed

text \<open>
  Claim C6. \<open>snapshot\<close> throws when there is no subscription, and when the consolidated
  ranges are not valid snapshot ranges. \<open>isValidSnapshotRanges\<close> is false exactly when the
  list of ranges is \<^verbatim>\<open>null\<close> or empty, or two of its ranges with different row spans have
  different multisets of column spans, the column spans of a row span being those of all
  the ranges of the list with that row span.
\<close>

theorem snapshot_requires_valid_ranges:
  "(subscription m = None \<longrightarrow>
      snapshot consolidate collect ranges m = Inl (Error ''No subscription available'' []))
   \<and> (\<not> isValidSnapshotRanges (Some (consolidate ranges)) \<longrightarrow>
      (\<exists>e. snapshot consolidate collect ranges m = Inl e))
   \<and> (isValidSnapshotRanges rs = False \<longleftrightarrow>
        rs = None \<or> rs = Some []
        \<or> (\<exists>l a b. rs = Some l \<and> a \<in> set l \<and> b \<in> set l \<and> row_span a \<noteq> row_span b
              \<and> column_spans_of l (row_span a) \<noteq> column_spans_of l (row_span b)))"
proof (intro conjI impI)
  assume "subscription m = None"
  then show "snapshot consolidate collect ranges m = Inl (Error ''No subscription available'' [])"
    by (simp add: snapshot_def)
next
  assume "\<not> isValidSnapshotRanges (Some (consolidate ranges))"
  then show "\<exists>e. snapshot consolidate collect ranges m = Inl e"
    by (simp add: snapshot_def Let_def)
next
  show "isValidSnapshotRanges rs = False \<longleftrightarrow>
        rs = None \<or> rs = Some []
        \<or> (\<exists>l a b. rs = Some l \<and> a \<in> set l \<and> b \<in> set l \<and> row_span a \<noteq> row_span b
              \<and> column_spans_of l (row_span a) \<noteq> column_spans_of l (row_span b))"
  proof (cases rs)
    case None
    then show ?thesis by (simp add: isValidSnapshotRanges_def)
  next
    case (Some l)
    show ?thesis
    proof (cases "l = []")
      case True
      then show ?thesis using Some by (simp add: isValidSnapshotRanges_def)
    next
      case False
      have "isValidSnapshotRanges (Some l) = False \<longleftrightarrow>
          (\<exists>a \<in> set l. \<exists>b \<in> set l. column_spans_of l (row_span a) \<noteq> column_spans_of l (row_span b))"
        using isValidSnapshotRanges_iff[OF False] by blast
      also have "\<dots> \<longleftrightarrow> (\<exists>a b. a \<in> set l \<and> b \<in> set l \<and> row_span a \<noteq> row_span b
              \<and> column_spans_of l (row_span a) \<noteq> column_spans_of l (row_span b))"
        by metis
      finally show ?thesis using Some False by simp
    qed
  qed
qed


theorem snapshot_requires_valid_ranges_witness:
  "\<not> isValidSnapshotRanges (Some
       [\<lparr>startColumn = Some 0, startRow = Some 0, endColumn = Some 1, endRow = Some 0\<rparr>,
        \<lparr>startColumn = Some 0, startRow = Some 3, endColumn = Some 2, endRow = Some 3\<rparr>])
   \<and> snapshot (\<lambda>ranges. ranges) (\<lambda>m ranges. Inr ())
       [\<lparr>startColumn = Some 0, startRow = Some 0, endColumn = Some 1, endRow = Some 0\<rparr>,
        \<lparr>startColumn = Some 0, startRow = Some 3, endColumn = Some 2, endRow = Some 3\<rparr>]
       ((new_model [] (Finite 10))\<lparr>subscription := Some Subscription\<rparr>)
     = Inl (Error ''Invalid snapshot ranges'' [])
   \<and> snapshot (\<lambda>ranges. ranges) (\<lambda>m ranges. Inr ())
       [\<lparr>startColumn = Some 0, startRow = Some 0, endColumn = Some 1, endRow = Some 0\<rparr>]
       (new_model [] (Finite 10))
     = Inl (Error ''No subscription available'' [])
   \<and> isValidSnapshotRanges (Some
       [\<lparr>startColumn = Some 0, startRow = Some 0, endColumn = Some 1, endRow = Some 0\<rparr>,
        \<lparr>startColumn = Some 0, startRow = Some 3, endColumn = Some 1, endRow = Some 3\<rparr>])"
proof -
  let ?a = "\<lparr>startColumn = Some 0, startRow = Some 0, endColumn = Some 1, endRow = Some 0\<rparr>"
  let ?b = "\<lparr>startColumn = Some 0, startRow = Some 3, endColumn = Some 2, endRow = Some 3\<rparr>"
  let ?c = "\<lparr>startColumn = Some 0, startRow = Some 3, endColumn = Some 1, endRow = Some 3\<rparr>"
  let ?m = "(new_model [] (Finite 10))\<lparr>subscription := Some Subscription\<rparr>"
  have spans: "row_span ?a \<noteq> row_span ?b"
      "column_spans_of [?a, ?b] (row_span ?a) \<noteq> column_spans_of [?a, ?b] (row_span ?b)"
    by (simp_all add: row_span_def column_spans_of_def column_span_def)
  then have "\<exists>l a b. Some [?a, ?b] = Some l \<and> a \<in> set l \<and> b \<in> set l \<and> row_span a \<noteq> row_span b
              \<and> column_spans_of l (row_span a) \<noteq> column_spans_of l (row_span b)"
    by (intro exI[of _ "[?a, ?b]"] exI[of _ ?a] exI[of _ ?b]) simp
  then have 1: "\<not> isValidSnapshotRanges (Some [?a, ?b])"
    using snapshot_requires_valid_ranges [where rs = "Some [?a, ?b]"] by blast
  have sub: "subscription ?m \<noteq> None" by simp
  have 2: "snapshot (\<lambda>ranges. ranges) (\<lambda>m ranges. Inr ()) [?a, ?b] ?m
      = Inl (Error ''Invalid snapshot ranges'' [])"
    using 1 sub unfolding snapshot_def by (simp add: Let_def)
  have "subscription (new_model [] (Finite 10)) = None" by (simp add: new_model_def)
  then have 3: "snapshot (\<lambda>ranges. ranges) (\<lambda>m ranges. Inr ()) [?a] (new_model [] (Finite 10))
      = Inl (Error ''No subscription available'' [])"
    using snapshot_requires_valid_ranges [where m = "new_model [] (Finite 10)"] by blast
  have 4: "isValidSnapshotRanges (Some [?a, ?c])"
    by code_simp
  show ?thesis by (intro conjI 1 2 3 4)
qed

end
